theory Spec2Isabelle
  imports Complex_Main
begin

section \<open>JavaScript array primitives\<close>

text \<open>
  \<^verbatim>\<open>arr.slice(b, e)\<close> for non-negative bounds: the elements at positions
  \<open>b \<le> i < e\<close>, both bounds clamped to the length of the array.
\<close>

definition slice :: "'a list \<Rightarrow> nat \<Rightarrow> nat \<Rightarrow> 'a list" where
  "slice arr b e = take (e - b) (drop b arr)"

text \<open>
  \<^verbatim>\<open>arr.slice(0, c)\<close> where \<open>c\<close> may be negative: a negative end counts from the
  end of the array.
\<close>

definition slice0 :: "'a list \<Rightarrow> int \<Rightarrow> 'a list" where
  "slice0 arr c = (if 0 \<le> c then take (nat c) arr else take (length arr - nat (- c)) arr)"

text \<open>
  \<^verbatim>\<open>[...new Set(xs)]\<close>: the elements of \<open>xs\<close> in order of first occurrence.
\<close>

fun uniq :: "'a list \<Rightarrow> 'a list" where
  "uniq [] = []"
| "uniq (x # xs) = x # uniq (filter (\<lambda>y. y \<noteq> x) xs)"

section \<open>hubspotRoute.js: chunking\<close>

text \<open>
  \<^verbatim>\<open>
  const progressiveChunks = (arr, sizes = [300, 100, 50, 1]) => {
    const result = [];
    let index = 0;
    for (const size of sizes) {
      while (index < arr.length) {
        const chunk = arr.slice(index, index + size);
        if (!chunk.length) break;
        result.push(chunk);
        index += size;
      }
    }
    return result;
  };
  \<close>
  The inner \<^verbatim>\<open>while\<close> is \<open>pc_while\<close>, returning the loop variables it leaves
  behind; the outer \<^verbatim>\<open>for\<close> is \<open>pc_for\<close>.
\<close>

function pc_while :: "'a list \<Rightarrow> nat \<Rightarrow> nat \<Rightarrow> 'a list list \<Rightarrow> nat \<times> 'a list list" where
  "pc_while arr sz index result =
     (if index < length arr then
        (let chunk = slice arr index (index + sz) in
         if chunk = [] then (index, result)
         else pc_while arr sz (index + sz) (result @ [chunk]))
      else (index, result))"
  by pat_completeness auto
termination
  by (relation "measure (\<lambda>(arr, sz, index, result). length arr - index)")
     (auto simp: slice_def)

fun pc_for :: "'a list \<Rightarrow> nat list \<Rightarrow> nat \<Rightarrow> 'a list list \<Rightarrow> 'a list list" where
  "pc_for arr [] index result = result"
| "pc_for arr (sz # sizes) index result =
     (case pc_while arr sz index result of (index', result') \<Rightarrow> pc_for arr sizes index' result')"

definition progressiveChunks :: "'a list \<Rightarrow> nat list \<Rightarrow> 'a list list" where
  "progressiveChunks arr sizes = pc_for arr sizes 0 []"

definition default_sizes :: "nat list" where
  "default_sizes = [300, 100, 50, 1]"

text \<open>
  Fixed-size chunking, the behaviour \<open>progressiveChunks\<close> is compared with below: cut
  \<open>xs\<close> into consecutive pieces of \<open>sz\<close> elements, the last piece holding what is left.
\<close>

function chunks_of :: "nat \<Rightarrow> 'a list \<Rightarrow> 'a list list" where
  "chunks_of sz xs = (if sz = 0 \<or> xs = [] then [] else take sz xs # chunks_of sz (drop sz xs))"
  by pat_completeness auto
termination
  by (relation "measure (\<lambda>(sz, xs). length xs)") auto

text \<open>
  The schedule in the words of the specification: every tier consumes as many whole
  chunks of its size as fit into what is left, then the next tier takes over. The
  function gives the chunk sizes for an input of \<open>n\<close> elements.
\<close>

fun spec_tier_sizes :: "nat \<Rightarrow> nat list \<Rightarrow> nat list" where
  "spec_tier_sizes n [] = []"
| "spec_tier_sizes n (sz # sizes) =
     (if sz = 0 then spec_tier_sizes n sizes
      else replicate (n div sz) sz @ spec_tier_sizes (n mod sz) sizes)"

section \<open>hubspotRoute.js: configuration\<close>

text \<open>
  \<^verbatim>\<open>
  const RETRIEVAL_BATCH_SIZE = parseInt(process.env.HUBSPOT_RETRIEVAL_BATCH_SIZE) || 1000;
  const MAX_RETRIES = parseInt(process.env.HUBSPOT_MAX_RETRIES) || 3;
  \<close>
  Both constants come from the environment, so they are parameters of the model;
  \<open>default_config\<close> holds the values used when the environment sets nothing.
\<close>

record config =
  RETRIEVAL_BATCH_SIZE :: nat
  MAX_RETRIES :: nat

definition default_config :: config where
  "default_config = \<lparr>RETRIEVAL_BATCH_SIZE = 1000, MAX_RETRIES = 3\<rparr>"

section \<open>hubspotRoute.js: paginated retrieval\<close>

text \<open>
  One request for a page either throws (\<open>Failure\<close> with \<^verbatim>\<open>error.message\<close>) or
  answers with \<^verbatim>\<open>res.data\<close>: the \<^verbatim>\<open>vid\<close>s of \<^verbatim>\<open>contacts\<close> (\<open>None\<close> when the field is
  missing, read as \<^verbatim>\<open>[]\<close> by the code), the \<^verbatim>\<open>has-more\<close> flag and \<^verbatim>\<open>vid-offset\<close>.

  The remote side is a function of the number of requests the call has made so far and
  of the request parameters \<^verbatim>\<open>count\<close> and \<^verbatim>\<open>vidOffset\<close>, so it may answer the same
  request differently at different times.
\<close>

datatype 'a response = Failure string | Page "'a list option" bool nat

type_synonym 'a transport = "nat \<Rightarrow> nat \<Rightarrow> nat \<Rightarrow> 'a response"

text \<open>
  \<^verbatim>\<open>maxCount\<close> is a number or \<^verbatim>\<open>Infinity\<close> (the default), here \<open>None\<close>.
\<close>

definition below :: "nat \<Rightarrow> nat option \<Rightarrow> bool" where
  "below n maxCount = (case maxCount of None \<Rightarrow> True | Some m \<Rightarrow> n < m)"

definition countToFetch :: "config \<Rightarrow> nat option \<Rightarrow> nat \<Rightarrow> nat" where
  "countToFetch cfg maxCount n =
     (case maxCount of None \<Rightarrow> RETRIEVAL_BATCH_SIZE cfg
      | Some m \<Rightarrow> min (RETRIEVAL_BATCH_SIZE cfg) (m - n))"

definition cap :: "'a list \<Rightarrow> nat option \<Rightarrow> 'a list" where
  "cap xs maxCount = (case maxCount of None \<Rightarrow> xs | Some m \<Rightarrow> slice xs 0 m)"

text \<open>
  hubspotRoute.js, lines 75 to 144:
  \<^verbatim>\<open>
  while (hasMore && allContacts.length < maxCount) {
    try {
      const countToFetch = Math.min(RETRIEVAL_BATCH_SIZE, maxCount - allContacts.length);
      totalAttempts++;
      const res = await axios.get(..., params: { count: countToFetch, vidOffset: offset } ...);
      const contacts = res.data.contacts || [];
      const newContacts = contacts.map(c => c.vid);
      allContacts.push(...newContacts);
      hasMore = res.data['has-more'] && allContacts.length < maxCount;
      offset = res.data['vid-offset'];
      consecutiveErrors = 0;
      if (allContacts.length >= maxCount) {
        allContacts = allContacts.slice(0, maxCount);
        break;
      }
      if (hasMore) { await new Promise(r => setTimeout(r, 200)); }
    } catch (error) {
      consecutiveErrors++;
      if (allContacts.length > 0 && consecutiveErrors >= MAX_RETRIES) { break; }
      if (allContacts.length === 0 && consecutiveErrors >= MAX_RETRIES) {
        throw new Error(`Unable to fetch contacts from list ${listId}: ${error.message}`);
      }
      const delay = Math.min(1000 * Math.pow(2, consecutiveErrors - 1), 10000);
      await new Promise(r => setTimeout(r, delay));
    }
  }
  const uniqueContacts = [...new Set(allContacts)];
  return uniqueContacts;
  \<close>
  The loop need not end (a remote side that keeps answering empty pages with
  \<^verbatim>\<open>has-more\<close> set), so it is a partial function: \<open>None\<close> is a call that never returns,
  \<open>Some (Inl m)\<close> a thrown \<^verbatim>\<open>Error\<close> with message \<open>m\<close>, \<open>Some (Inr xs)\<close> the returned array.
  The pauses do not change the result and are left out.
\<close>

partial_function (option) fetch_loop ::
  "config \<Rightarrow> 'a transport \<Rightarrow> string \<Rightarrow> nat option \<Rightarrow>
   'a list \<Rightarrow> bool \<Rightarrow> nat \<Rightarrow> nat \<Rightarrow> nat \<Rightarrow> (string + 'a list) option" where
  "fetch_loop cfg transport listId maxCount allContacts hasMore offset consecutiveErrors totalAttempts =
     (if hasMore \<and> below (length allContacts) maxCount then
        (case transport totalAttempts (countToFetch cfg maxCount (length allContacts)) offset of
           Page contacts has_more vid_offset \<Rightarrow>
             (let allContacts' = allContacts @ (case contacts of None \<Rightarrow> [] | Some vids \<Rightarrow> vids);
                  hasMore' = (has_more \<and> below (length allContacts') maxCount)
              in if \<not> below (length allContacts') maxCount
                 then Some (Inr (uniq (cap allContacts' maxCount)))
                 else fetch_loop cfg transport listId maxCount
                        allContacts' hasMore' vid_offset 0 (totalAttempts + 1))
         | Failure message \<Rightarrow>
             (let consecutiveErrors' = consecutiveErrors + 1
              in if allContacts \<noteq> [] \<and> MAX_RETRIES cfg \<le> consecutiveErrors'
                 then Some (Inr (uniq allContacts))
                 else if allContacts = [] \<and> MAX_RETRIES cfg \<le> consecutiveErrors'
                 then Some (Inl (''Unable to fetch contacts from list '' @ listId @ '': '' @ message))
                 else fetch_loop cfg transport listId maxCount
                        allContacts hasMore offset consecutiveErrors' (totalAttempts + 1)))
      else Some (Inr (uniq allContacts)))"

definition getContactsFromList ::
  "config \<Rightarrow> 'a transport \<Rightarrow> string \<Rightarrow> nat option \<Rightarrow> (string + 'a list) option" where
  "getContactsFromList cfg transport listId maxCount =
     fetch_loop cfg transport listId maxCount [] True 0 0 0"

text \<open>
  hubspotRoute.js, lines 839 to 875, the second definition of the function in the file:
  \<^verbatim>\<open>
  while (hasMore && retryCount < MAX_RETRIES && allContacts.length < maxCount) {
    try {
      const countToFetch = Math.min(RETRIEVAL_BATCH_SIZE, maxCount - allContacts.length);
      const res = await axios.get(..., params: { count: countToFetch, vidOffset: offset });
      const contacts = res.data.contacts || [];
      allContacts.push(...contacts.map(c => c.vid));
      hasMore = res.data['has-more'] && allContacts.length < maxCount;
      offset = res.data['vid-offset'];
      retryCount = 0;
      if (allContacts.length >= maxCount) {
        allContacts = allContacts.slice(0, maxCount);
        break;
      }
    } catch (error) {
      retryCount++;
      if (retryCount < MAX_RETRIES) await new Promise(r => setTimeout(r, 1000 * retryCount));
      else hasMore = false;
    }
  }
  return [...new Set(allContacts)];
  \<close>
  This one has no \<^verbatim>\<open>throw\<close>. The argument \<open>requests\<close> counts the requests made, for the
  remote side; the source has no such variable.
\<close>

partial_function (option) fetch_loop_copy2 ::
  "config \<Rightarrow> 'a transport \<Rightarrow> nat option \<Rightarrow>
   'a list \<Rightarrow> bool \<Rightarrow> nat \<Rightarrow> nat \<Rightarrow> nat \<Rightarrow> (string + 'a list) option" where
  "fetch_loop_copy2 cfg transport maxCount allContacts hasMore offset retryCount requests =
     (if hasMore \<and> retryCount < MAX_RETRIES cfg \<and> below (length allContacts) maxCount then
        (case transport requests (countToFetch cfg maxCount (length allContacts)) offset of
           Page contacts has_more vid_offset \<Rightarrow>
             (let allContacts' = allContacts @ (case contacts of None \<Rightarrow> [] | Some vids \<Rightarrow> vids);
                  hasMore' = (has_more \<and> below (length allContacts') maxCount)
              in if \<not> below (length allContacts') maxCount
                 then Some (Inr (uniq (cap allContacts' maxCount)))
                 else fetch_loop_copy2 cfg transport maxCount
                        allContacts' hasMore' vid_offset 0 (requests + 1))
         | Failure message \<Rightarrow>
             (let retryCount' = retryCount + 1
              in if retryCount' < MAX_RETRIES cfg
                 then fetch_loop_copy2 cfg transport maxCount
                        allContacts hasMore offset retryCount' (requests + 1)
                 else fetch_loop_copy2 cfg transport maxCount
                        allContacts False offset retryCount' (requests + 1)))
      else Some (Inr (uniq allContacts)))"

definition getContactsFromList_copy2 ::
  "config \<Rightarrow> 'a transport \<Rightarrow> nat option \<Rightarrow> (string + 'a list) option" where
  "getContactsFromList_copy2 cfg transport maxCount =
     fetch_loop_copy2 cfg transport maxCount [] True 0 0 0"



section \<open>hubspotRoute.js: chunked upload\<close>

text \<open>
  One \<^verbatim>\<open>axios.post\<close> of a chunk either succeeds or throws with a message. The remote
  side is a function of the number of posts the call has made so far and of the chunk.
\<close>

datatype post_result = Posted | Rejected string

type_synonym 'a post = "nat \<Rightarrow> 'a list \<Rightarrow> post_result"

record 'a upload =
  posts :: nat
  successCount :: nat
  failedChunks :: "'a list list"

text \<open>
  hubspotRoute.js, lines 161 to 211:
  \<^verbatim>\<open>
  const addContactsToList = async (listId, contacts) => {
    if (!contacts || contacts.length === 0) { return; }
    const chunks = progressiveChunks(contacts);
    let successCount = 0;
    let failedChunks = [];
    for (const [index, chunk] of chunks.entries()) {
      let retries = 0;
      let success = false;
      while (retries < MAX_RETRIES && !success) {
        try {
          await axios.post(..., { vids: chunk }, ...);
          successCount += chunk.length;
          success = true;
          await new Promise(r => setTimeout(r, 500));
        } catch (error) {
          retries++;
          if (retries < MAX_RETRIES) {
            const delay = Math.min(1000 * Math.pow(2, retries - 1), 5000);
            await new Promise(r => setTimeout(r, delay));
          } else {
            failedChunks.push(chunk);
          }
        }
      }
    }
    if (failedChunks.length > 0) { ... // Don't throw - return partial success }
    console.log(`  Summary: Successfully added ${successCount}/${contacts.length} ...`);
  };
  \<close>
  \<open>upload_retry\<close> is the \<^verbatim>\<open>while\<close> loop for one chunk, \<open>upload_chunks\<close> the \<^verbatim>\<open>for\<close>
  loop. The function returns nothing to its caller; the model returns the counters it
  logs, \<open>Inl\<close> standing for an exception that leaves the function.
\<close>

function upload_retry ::
  "config \<Rightarrow> 'a post \<Rightarrow> 'a list \<Rightarrow> nat \<Rightarrow> bool \<Rightarrow> 'a upload \<Rightarrow> 'a upload" where
  "upload_retry cfg post chunk retries success st =
     (if retries < MAX_RETRIES cfg \<and> \<not> success then
        (case post (posts st) chunk of
           Posted \<Rightarrow>
             upload_retry cfg post chunk retries True
               (st\<lparr>posts := posts st + 1, successCount := successCount st + length chunk\<rparr>)
         | Rejected message \<Rightarrow>
             (let retries' = retries + 1
              in if retries' < MAX_RETRIES cfg
                 then upload_retry cfg post chunk retries' False (st\<lparr>posts := posts st + 1\<rparr>)
                 else upload_retry cfg post chunk retries' False
                        (st\<lparr>posts := posts st + 1, failedChunks := failedChunks st @ [chunk]\<rparr>)))
      else st)"
  by pat_completeness auto
termination
  by (relation "measure (\<lambda>(cfg, post, chunk, retries, success, st).
        (MAX_RETRIES cfg - retries) + (if success then 0 else 1))")
     (auto split: if_splits)

fun upload_chunks :: "config \<Rightarrow> 'a post \<Rightarrow> 'a list list \<Rightarrow> 'a upload \<Rightarrow> 'a upload" where
  "upload_chunks cfg post [] st = st"
| "upload_chunks cfg post (chunk # chunks) st =
     upload_chunks cfg post chunks (upload_retry cfg post chunk 0 False st)"

definition addContactsToList :: "config \<Rightarrow> 'a post \<Rightarrow> 'a list \<Rightarrow> string + 'a upload" where
  "addContactsToList cfg post contacts =
     (if contacts = [] then Inr \<lparr>posts = 0, successCount = 0, failedChunks = []\<rparr>
      else Inr (upload_chunks cfg post (progressiveChunks contacts default_sizes)
                  \<lparr>posts = 0, successCount = 0, failedChunks = []\<rparr>))"

text \<open>
  hubspotRoute.js, lines 892 to 908, the second definition of the function in the file:
  \<^verbatim>\<open>
  const addContactsToList = async (listId, contacts) => {
    const chunks = progressiveChunks(contacts);
    for (const chunk of chunks) {
      try {
        await axios.post(..., { vids: chunk }, { headers: hubspotHeaders });
        await new Promise(r => setTimeout(r, 500));
      } catch (error) {
        console.error(`Failed to add contacts to list ${listId}`, error.message);
        throw error;
      }
    }
  };
  \<close>
  The result is the number of posts made, or the message of the rethrown error.
\<close>

fun upload_chunks_copy2 :: "'a post \<Rightarrow> 'a list list \<Rightarrow> nat \<Rightarrow> string + nat" where
  "upload_chunks_copy2 post [] k = Inr k"
| "upload_chunks_copy2 post (chunk # chunks) k =
     (case post k chunk of
        Posted \<Rightarrow> upload_chunks_copy2 post chunks (k + 1)
      | Rejected message \<Rightarrow> Inl message)"

definition addContactsToList_copy2 :: "'a post \<Rightarrow> 'a list \<Rightarrow> string + nat" where
  "addContactsToList_copy2 post contacts =
     upload_chunks_copy2 post (progressiveChunks contacts default_sizes) 0"

section \<open>JavaScript numbers\<close>

text \<open>
  A JavaScript number is an IEEE 754 binary64 value. The finite ones are rationals;
  \<open>fl\<close> rounds a rational to the nearest binary64 value, ties to the even significand
  of 53 bits. Overflow and subnormal values are not modelled: the model is that of the
  language for magnitudes between \<open>2\<^sup>-\<^sup>1\<^sup>0\<^sup>2\<^sup>2\<close> and \<open>2\<^sup>1\<^sup>0\<^sup>2\<^sup>4\<close>, where every
  quotient of two array lengths lies.
\<close>

datatype jsnumber = Number rat | NaN | PosInfinity | NegInfinity

definition round_half_even :: "rat \<Rightarrow> int" where
  "round_half_even x =
     (let f = \<lfloor>x\<rfloor>; r = x - of_int f
      in if r < 1 / 2 then f else if 1 / 2 < r then f + 1 else if even f then f else f + 1)"

text \<open>The number of binary digits of a positive integer; 0 for the others.\<close>

function bit_length :: "int \<Rightarrow> int" where
  "bit_length a = (if 0 < a then 1 + bit_length (a div 2) else 0)"
  by pat_completeness auto
termination
  by (relation "measure nat") auto

text \<open>\<open>binade q\<close> is the exponent \<open>e\<close> with \<open>2\<^sup>e \<le> |q| < 2\<^sup>e\<^sup>+\<^sup>1\<close>, for \<open>q \<noteq> 0\<close>.\<close>

definition binade :: "rat \<Rightarrow> int" where
  "binade q =
     (case quotient_of \<bar>q\<bar> of (a, b) \<Rightarrow>
        let d = bit_length a - bit_length b
        in if 2 powi d \<le> \<bar>q\<bar> then d else d - 1)"

definition fl :: "rat \<Rightarrow> rat" where
  "fl q =
     (if q = 0 then 0
      else let ulp = 2 powi (binade q - 52)
           in of_int (round_half_even (q / ulp)) * ulp)"

text \<open>\<^verbatim>\<open>a / b\<close> for two integers below \<open>2\<^sup>5\<^sup>3\<close> in magnitude.\<close>

definition js_div :: "int \<Rightarrow> int \<Rightarrow> jsnumber" where
  "js_div a b =
     (if b = 0 then (if a = 0 then NaN else if 0 < a then PosInfinity else NegInfinity)
      else Number (fl (of_int a / of_int b)))"

text \<open>\<^verbatim>\<open>x * 100\<close>.\<close>

fun js_times100 :: "jsnumber \<Rightarrow> jsnumber" where
  "js_times100 (Number x) = Number (fl (x * 100))"
| "js_times100 NaN = NaN"
| "js_times100 PosInfinity = PosInfinity"
| "js_times100 NegInfinity = NegInfinity"

text \<open>
  \<^verbatim>\<open>Math.round(x)\<close>: the integer nearest to \<open>x\<close>, a tie going to the larger one; \<^verbatim>\<open>NaN\<close> and
  the infinities are returned as they are.
\<close>

fun Math_round :: "jsnumber \<Rightarrow> jsnumber" where
  "Math_round (Number x) = Number (of_int \<lfloor>x + 1 / 2\<rfloor>)"
| "Math_round NaN = NaN"
| "Math_round PosInfinity = PosInfinity"
| "Math_round NegInfinity = NegInfinity"

section \<open>hubspotRoute.js: campaign allocation\<close>

text \<open>
  The fields of a campaign configuration that the allocation reads. \<^verbatim>\<open>secondaryListId\<close>
  and \<^verbatim>\<open>sendContactListId\<close> are tested for truthiness, so a missing or empty one is
  \<open>None\<close>.
\<close>

record campaign =
  primaryListId :: string
  secondaryListId :: "string option"
  count :: int
  sendContactListId :: "string option"

text \<open>
  \<^verbatim>\<open>getContactsFromList(listId, maxCount)\<close> as the allocation sees it: the array it
  returns, or the message of the error it throws. The function stands for the retrieval
  above run against whatever the remote side does at that time.
\<close>

type_synonym 'a fetch = "string \<Rightarrow> nat \<Rightarrow> string + 'a list"

record 'a pools =
  primaryContacts :: "'a list"
  secondaryContacts :: "'a list"
  primaryBeforeFilter :: nat
  primaryAfterFilter :: nat
  secondaryBeforeFilter :: nat
  secondaryAfterFilter :: nat

text \<open>
  hubspotRoute.js, lines 254 to 299:
  \<^verbatim>\<open>
  let primaryContacts = [];  let secondaryContacts = [];
  let primaryBeforeFilter = 0;  let primaryAfterFilter = 0;
  let secondaryBeforeFilter = 0;  let secondaryAfterFilter = 0;
  try {
    const primaryFetchCount = Math.max(count * 3, 500);
    primaryContacts = await getContactsFromList(primaryListId, primaryFetchCount);
    primaryBeforeFilter = primaryContacts.length;
    primaryContacts = primaryContacts.filter(vid => !usedContactsSet.has(vid));
    primaryAfterFilter = primaryContacts.length;
    if (primaryAfterFilter < count && secondaryListId) {
      const secondaryNeeded = count - primaryAfterFilter;
      const secondaryFetchCount = Math.max(secondaryNeeded * 3, 500);
      secondaryContacts = await getContactsFromList(secondaryListId, secondaryFetchCount);
      secondaryBeforeFilter = secondaryContacts.length;
      secondaryContacts = secondaryContacts.filter(vid => !usedContactsSet.has(vid));
      secondaryAfterFilter = secondaryContacts.length;
    }
  } catch (error) {
    // Continue with whatever contacts we have
  }
  \<close>
\<close>

definition fetch_pools :: "'a fetch \<Rightarrow> campaign \<Rightarrow> 'a set \<Rightarrow> 'a pools" where
  "fetch_pools fetch config usedContactsSet =
     (let primaryFetchCount = max (count config * 3) 500
      in case fetch (primaryListId config) (nat primaryFetchCount) of
           Inl message \<Rightarrow>
             \<lparr>primaryContacts = [], secondaryContacts = [],
              primaryBeforeFilter = 0, primaryAfterFilter = 0,
              secondaryBeforeFilter = 0, secondaryAfterFilter = 0\<rparr>
         | Inr fetched \<Rightarrow>
             (let primary = filter (\<lambda>vid. vid \<notin> usedContactsSet) fetched;
                  only_primary =
                    \<lparr>primaryContacts = primary, secondaryContacts = [],
                     primaryBeforeFilter = length fetched, primaryAfterFilter = length primary,
                     secondaryBeforeFilter = 0, secondaryAfterFilter = 0\<rparr>
              in if int (length primary) < count config then
                   (case secondaryListId config of
                      None \<Rightarrow> only_primary
                    | Some secondary_id \<Rightarrow>
                        (let secondaryNeeded = count config - int (length primary);
                             secondaryFetchCount = max (secondaryNeeded * 3) 500
                         in case fetch secondary_id (nat secondaryFetchCount) of
                              Inl message \<Rightarrow> only_primary
                            | Inr fetched2 \<Rightarrow>
                                (let secondary = filter (\<lambda>vid. vid \<notin> usedContactsSet) fetched2
                                 in only_primary
                                      \<lparr>secondaryContacts := secondary,
                                       secondaryBeforeFilter := length fetched2,
                                       secondaryAfterFilter := length secondary\<rparr>)))
                 else only_primary))"

text \<open>
  hubspotRoute.js, lines 301 to 310:
  \<^verbatim>\<open>
  const allContacts = [...primaryContacts, ...secondaryContacts];
  const selectedContacts = allContacts.slice(0, count);
  selectedContacts.forEach(vid => usedContactsSet.add(vid));
  const fulfillmentPercentage = count > 0 ? Math.round((selectedContacts.length / count) * 100) : 0;
  \<close>
\<close>

definition fulfillment :: "nat \<Rightarrow> int \<Rightarrow> jsnumber" where
  "fulfillment selected cnt =
     (if 0 < cnt then Math_round (js_times100 (js_div (int selected) cnt)) else Number 0)"

record 'a allocation =
  selectedContacts :: "'a list"
  contactCount :: nat
  requestedCount :: int
  availableCount :: nat
  filteredCount :: nat
  fulfillmentPercentage :: jsnumber

definition allocate :: "'a fetch \<Rightarrow> campaign \<Rightarrow> 'a set \<Rightarrow> 'a allocation" where
  "allocate fetch config usedContactsSet =
     (let p = fetch_pools fetch config usedContactsSet;
          allContacts = primaryContacts p @ secondaryContacts p;
          selected = slice0 allContacts (count config)
      in \<lparr>selectedContacts = selected,
          contactCount = length selected,
          requestedCount = count config,
          availableCount = primaryBeforeFilter p + secondaryBeforeFilter p,
          filteredCount = (primaryBeforeFilter p - primaryAfterFilter p)
                          + (secondaryBeforeFilter p - secondaryAfterFilter p),
          fulfillmentPercentage = fulfillment (length selected) (count config)\<rparr>)"

text \<open>
  \<^verbatim>\<open>processSingleCampaign\<close>, lines 248 to 376. After the selection the function creates
  the remote list and writes the audit record; either may throw, which rejects the
  call after the set of used identifiers has been extended. \<open>reject\<close> is the message
  of that error, if there is one. The uploads in between are inside a
  \<^verbatim>\<open>try\<close>/\<^verbatim>\<open>catch\<close> and change neither the result nor the set. The returned object holds
  the counts; the model keeps the selection beside them.
\<close>

definition processSingleCampaign ::
  "'a fetch \<Rightarrow> string option \<Rightarrow> campaign \<Rightarrow> 'a set \<Rightarrow> (string + 'a allocation) \<times> 'a set" where
  "processSingleCampaign fetch reject config usedContactsSet =
     (let a = allocate fetch config usedContactsSet;
          used = usedContactsSet \<union> set (selectedContacts a)
      in case reject of
           Some message \<Rightarrow> (Inl message, used)
         | None \<Rightarrow> (Inr a, used))"

text \<open>
  hubspotRoute.js, lines 945 to 1016, the second definition of the function in the file:
  \<^verbatim>\<open>
  let primaryContacts = await getContactsFromList(primaryListId, count * 2);
  const primaryBeforeFilter = primaryContacts.length;
  primaryContacts = primaryContacts.filter(vid => !usedContactsSet.has(vid));
  const primaryAfterFilter = primaryContacts.length;
  let secondaryContacts = [];
  let secondaryBeforeFilter = 0;
  let secondaryAfterFilter = 0;
  if (primaryAfterFilter < count && secondaryListId) {
    secondaryContacts = await getContactsFromList(secondaryListId, (count - primaryAfterFilter) * 2);
    secondaryBeforeFilter = secondaryContacts.length;
    secondaryContacts = secondaryContacts.filter(vid => !usedContactsSet.has(vid));
    secondaryAfterFilter = secondaryContacts.length;
  }
  const allContacts = [...primaryContacts, ...secondaryContacts];
  const selectedContacts = allContacts.slice(0, count);
  selectedContacts.forEach(vid => usedContactsSet.add(vid));
  const fulfillmentPercentage = Math.round((selectedContacts.length / count) * 100);
  \<close>
  There is no \<^verbatim>\<open>try\<close> around the retrievals, so an error of theirs rejects the call
  before anything is selected, and no test of \<^verbatim>\<open>count\<close> before the division.
\<close>

definition fetch_pools_copy2 :: "'a fetch \<Rightarrow> campaign \<Rightarrow> 'a set \<Rightarrow> string + 'a pools" where
  "fetch_pools_copy2 fetch config usedContactsSet =
     (case fetch (primaryListId config) (nat (count config * 2)) of
        Inl message \<Rightarrow> Inl message
      | Inr fetched \<Rightarrow>
          (let primary = filter (\<lambda>vid. vid \<notin> usedContactsSet) fetched;
               only_primary =
                 \<lparr>primaryContacts = primary, secondaryContacts = [],
                  primaryBeforeFilter = length fetched, primaryAfterFilter = length primary,
                  secondaryBeforeFilter = 0, secondaryAfterFilter = 0\<rparr>
           in if int (length primary) < count config then
                (case secondaryListId config of
                   None \<Rightarrow> Inr only_primary
                 | Some secondary_id \<Rightarrow>
                     (case fetch secondary_id (nat ((count config - int (length primary)) * 2)) of
                        Inl message \<Rightarrow> Inl message
                      | Inr fetched2 \<Rightarrow>
                          (let secondary = filter (\<lambda>vid. vid \<notin> usedContactsSet) fetched2
                           in Inr (only_primary
                                \<lparr>secondaryContacts := secondary,
                                 secondaryBeforeFilter := length fetched2,
                                 secondaryAfterFilter := length secondary\<rparr>))))
              else Inr only_primary))"

definition fulfillment_copy2 :: "nat \<Rightarrow> int \<Rightarrow> jsnumber" where
  "fulfillment_copy2 selected cnt = Math_round (js_times100 (js_div (int selected) cnt))"

definition allocate_copy2 :: "'a fetch \<Rightarrow> campaign \<Rightarrow> 'a set \<Rightarrow> string + 'a allocation" where
  "allocate_copy2 fetch config usedContactsSet =
     (case fetch_pools_copy2 fetch config usedContactsSet of
        Inl message \<Rightarrow> Inl message
      | Inr p \<Rightarrow>
          (let allContacts = primaryContacts p @ secondaryContacts p;
               selected = slice0 allContacts (count config)
           in Inr \<lparr>selectedContacts = selected,
                   contactCount = length selected,
                   requestedCount = count config,
                   availableCount = primaryBeforeFilter p + secondaryBeforeFilter p,
                   filteredCount = (primaryBeforeFilter p - primaryAfterFilter p)
                                   + (secondaryBeforeFilter p - secondaryAfterFilter p),
                   fulfillmentPercentage = fulfillment_copy2 (length selected) (count config)\<rparr>))"

definition processSingleCampaign_copy2 ::
  "'a fetch \<Rightarrow> string option \<Rightarrow> campaign \<Rightarrow> 'a set \<Rightarrow> (string + 'a allocation) \<times> 'a set" where
  "processSingleCampaign_copy2 fetch reject config usedContactsSet =
     (case allocate_copy2 fetch config usedContactsSet of
        Inl message \<Rightarrow> (Inl message, usedContactsSet)
      | Inr a \<Rightarrow>
          (let used = usedContactsSet \<union> set (selectedContacts a)
           in case reject of
                Some message \<Rightarrow> (Inl message, used)
              | None \<Rightarrow> (Inr a, used)))"

text \<open>
  \<^verbatim>\<open>processCampaignsWithDelay\<close>, lines 378 to 424 and, word for word, lines 1018 to 1064:
  \<^verbatim>\<open>
  const results = [];
  const usedContacts = new Set();
  for (const [index, config] of listConfigs.entries()) {
    try {
      const result = await processSingleCampaign(config, daysFilter, modeFilter, usedContacts);
      results.push({ status: 'fulfilled', value: result });
      ...
    } catch (error) {
      results.push({ status: 'rejected', reason: error });
      ...
    }
  }
  return results;
  \<close>
  The loop is given the function it calls for one campaign, so that it serves both
  definitions of \<^verbatim>\<open>processSingleCampaign\<close>; the retrieval and the rejection may differ
  from one campaign to the next and take the campaign's index. The waits are left out.
\<close>

type_synonym 'a single =
  "'a fetch \<Rightarrow> string option \<Rightarrow> campaign \<Rightarrow> 'a set \<Rightarrow> (string + 'a allocation) \<times> 'a set"

fun campaigns_loop ::
  "'a single \<Rightarrow> (nat \<Rightarrow> 'a fetch) \<Rightarrow> (nat \<Rightarrow> string option) \<Rightarrow> campaign list \<Rightarrow> nat \<Rightarrow>
   'a set \<Rightarrow> (string + 'a allocation) list \<Rightarrow> (string + 'a allocation) list" where
  "campaigns_loop single fetch reject [] index usedContacts results = results"
| "campaigns_loop single fetch reject (config # listConfigs) index usedContacts results =
     (case single (fetch index) (reject index) config usedContacts of
        (result, used) \<Rightarrow>
          campaigns_loop single fetch reject listConfigs (index + 1) used (results @ [result]))"

definition processCampaignsWithDelay ::
  "'a single \<Rightarrow> (nat \<Rightarrow> 'a fetch) \<Rightarrow> (nat \<Rightarrow> string option) \<Rightarrow> campaign list \<Rightarrow>
   (string + 'a allocation) list" where
  "processCampaignsWithDelay single fetch reject listConfigs =
     campaigns_loop single fetch reject listConfigs 0 {} []"

text \<open>
  The array \<^verbatim>\<open>selectedContacts\<close> of one call of the second definition: a retrieval that
  throws ends the call before anything is selected.
\<close>

definition selectedContacts_copy2 :: "'a fetch \<Rightarrow> campaign \<Rightarrow> 'a set \<Rightarrow> 'a list" where
  "selectedContacts_copy2 fetch config usedContactsSet =
     (case allocate_copy2 fetch config usedContactsSet of
        Inl message \<Rightarrow> []
      | Inr a \<Rightarrow> selectedContacts a)"

text \<open>
  The set \<^verbatim>\<open>usedContacts\<close> of a run at the start of turn \<open>i\<close> of the loop, the turns
  counted from 0; for \<open>i\<close> the number of campaigns, the set the run ends with.
\<close>

fun usedContacts_before ::
  "'a single \<Rightarrow> (nat \<Rightarrow> 'a fetch) \<Rightarrow> (nat \<Rightarrow> string option) \<Rightarrow> campaign list \<Rightarrow> nat \<Rightarrow> 'a set" where
  "usedContacts_before single fetch reject listConfigs 0 = {}"
| "usedContacts_before single fetch reject listConfigs (Suc i) =
     snd (single (fetch i) (reject i) (listConfigs ! i)
            (usedContacts_before single fetch reject listConfigs i))"

section \<open>The cloner: dates in email names\<close>

text \<open>
  Both copies of the cloner (cloner.js, lines 102 to 126, and the unnamed file, lines 151
  to 175 and 446 to 463) derive the name of a clone in the same words:
  \<^verbatim>\<open>
  const datePattern = /\d{2} \w{3} \d{4}/;
  const dateMatch = originalEmailName.match(datePattern);
  if (!dateMatch) { ... }
  let clonedDate = new Date(dateMatch[0]);
  clonedDate.setDate(clonedDate.getDate() + dayOffset);
  clonedDate.setHours(hour, minute, 0, 0);
  const updatedDate = clonedDate
    .toLocaleDateString("en-GB", { day: "2-digit", month: "short", year: "numeric" })
    .replace(",", "")
    .replace("Sept", "Sep");
  const newEmailName = originalEmailName.replace(dateMatch[0], updatedDate);
  \<close>
\<close>

subsection \<open>The pattern\<close>

definition is_digit :: "char \<Rightarrow> bool" where
  "is_digit c = (let n = (of_char c :: nat) in 48 \<le> n \<and> n \<le> 57)"

definition is_word :: "char \<Rightarrow> bool" where
  "is_word c =
     (let n = (of_char c :: nat)
      in (48 \<le> n \<and> n \<le> 57) \<or> (65 \<le> n \<and> n \<le> 90) \<or> (97 \<le> n \<and> n \<le> 122) \<or> n = 95)"

fun date_shaped :: "string \<Rightarrow> bool" where
  "date_shaped [d1, d2, s1, w1, w2, w3, s2, y1, y2, y3, y4] =
     (is_digit d1 \<and> is_digit d2 \<and> s1 = CHR '' '' \<and>
      is_word w1 \<and> is_word w2 \<and> is_word w3 \<and> s2 = CHR '' '' \<and>
      is_digit y1 \<and> is_digit y2 \<and> is_digit y3 \<and> is_digit y4)"
| "date_shaped _ = False"

text \<open>
  The leftmost match of the pattern: what stands before it, the match, what follows.
\<close>

fun match_date :: "string \<Rightarrow> (string \<times> string \<times> string) option" where
  "match_date [] = None"
| "match_date (c # cs) =
     (if date_shaped (take 11 (c # cs)) then Some ([], take 11 (c # cs), drop 11 (c # cs))
      else (case match_date cs of
              None \<Rightarrow> None
            | Some (before, m, after) \<Rightarrow> Some (c # before, m, after)))"

subsection \<open>The calendar\<close>

text \<open>
  A calendar day is a year, a month counted from 0 as \<^verbatim>\<open>getMonth\<close> does, and a day of
  the month. \<^verbatim>\<open>setDate\<close> and \<^verbatim>\<open>setHours\<close> work on the local calendar fields and carry
  what overflows into the next field; \<open>next_day\<close> and \<open>prev_day\<close> are one step of that
  carry. Time zones and daylight saving do not move a local calendar day and are left
  out.
\<close>

type_synonym date = "nat \<times> nat \<times> nat"

definition leap :: "nat \<Rightarrow> bool" where
  "leap y = (if y mod 400 = 0 then True else if y mod 100 = 0 then False else y mod 4 = 0)"

definition days_in_month :: "nat \<Rightarrow> nat \<Rightarrow> nat" where
  "days_in_month y m =
     (if m = 1 then (if leap y then 29 else 28)
      else if m = 3 \<or> m = 5 \<or> m = 8 \<or> m = 10 then 30 else 31)"

fun next_day :: "date \<Rightarrow> date" where
  "next_day (y, m, d) =
     (if d < days_in_month y m then (y, m, d + 1)
      else if m < 11 then (y, m + 1, 1)
      else (y + 1, 0, 1))"

fun prev_day :: "date \<Rightarrow> date" where
  "prev_day (y, m, d) =
     (if 1 < d then (y, m, d - 1)
      else if 0 < m then (y, m - 1, days_in_month y (m - 1))
      else (y - 1, 11, 31))"

text \<open>A day that the calendar has.\<close>

definition valid_date :: "date \<Rightarrow> bool" where
  "valid_date dt = (case dt of (y, m, d) \<Rightarrow> m < 12 \<and> 1 \<le> d \<and> d \<le> days_in_month y m)"

definition shift_days :: "int \<Rightarrow> date \<Rightarrow> date" where
  "shift_days k dt = (if 0 \<le> k then (next_day ^^ nat k) dt else (prev_day ^^ nat (- k)) dt)"

subsection \<open>Reading and writing a date\<close>

definition monthNames :: "string list" where
  "monthNames = [''Jan'', ''Feb'', ''Mar'', ''Apr'', ''May'', ''Jun'',
                 ''Jul'', ''Aug'', ''Sep'', ''Oct'', ''Nov'', ''Dec'']"

definition to_lower :: "char \<Rightarrow> char" where
  "to_lower c = (let n = (of_char c :: nat) in if 65 \<le> n \<and> n \<le> 90 then char_of (n + 32) else c)"

fun index_of :: "'a \<Rightarrow> 'a list \<Rightarrow> nat option" where
  "index_of x [] = None"
| "index_of x (y # ys) = (if x = y then Some 0 else map_option Suc (index_of x ys))"

definition month_index :: "string \<Rightarrow> nat option" where
  "month_index w = index_of (map to_lower w) (map (map to_lower) monthNames)"

definition digit_value :: "char \<Rightarrow> nat" where
  "digit_value c = of_char c - 48"

definition number_of :: "string \<Rightarrow> nat" where
  "number_of ds = foldl (\<lambda>n c. 10 * n + digit_value c) 0 ds"

text \<open>
  \<^verbatim>\<open>new Date(dateMatch[0])\<close>, for a string the pattern matched, as V8 reads it. The
  string is no ISO date, so V8's older reader takes it token by token: a run of digits
  is a number, a run of other characters (here letters and underscores) a word. A word
  must be one the reader knows, a month name or the name of a time zone, in any case of
  letters; any other word after a number makes the date invalid. The two digits, the
  digits inside the middle word and the four digits are the numbers, at most three.
\<close>

definition timeZoneNames :: "string list" where
  "timeZoneNames = [''ut'', ''utc'', ''z'', ''gmt'', ''cdt'', ''cst'', ''edt'', ''est'',
                    ''mdt'', ''mst'', ''pdt'', ''pst'']"

fun runs :: "string \<Rightarrow> string list" where
  "runs [] = []"
| "runs (c # cs) =
     (case runs cs of
        [] \<Rightarrow> [[c]]
      | r # rs \<Rightarrow> if is_digit c = is_digit (hd r) then (c # r) # rs else [c] # r # rs)"

definition known_word :: "string \<Rightarrow> bool" where
  "known_word w =
     (case month_index w of
        Some m \<Rightarrow> True
      | None \<Rightarrow> List.member timeZoneNames (map to_lower w))"

definition full_year :: "nat \<Rightarrow> nat" where
  "full_year y = (if y < 50 then y + 2000 else if y < 100 then y + 1900 else y)"

definition is_day :: "nat \<Rightarrow> bool" where
  "is_day n = (1 \<le> n \<and> n \<le> 31)"

definition is_month :: "nat \<Rightarrow> bool" where
  "is_month n = (1 \<le> n \<and> n \<le> 12)"

text \<open>
  What the reader makes of the numbers. Missing ones count as 1. With a month name: a
  first number from 1 to 31 is the day and the second the year, otherwise the first is
  the year and the second the day. Without one: a first number from 1 to 31 is the
  month, followed by the day and the year, otherwise the numbers are year, month and
  day. A year below 50 is in the 2000s and one below 100 in the 1900s; month and day
  must be in range; a day of 1 to 31 that the month does not have is carried into the
  next month. \<open>None\<close> is the invalid date.
\<close>

definition day_composer :: "nat option \<Rightarrow> nat list \<Rightarrow> date option" where
  "day_composer named_month numbers =
     (if 3 < length numbers \<or> numbers = [] then None
      else
        (let comp = numbers @ replicate (3 - length numbers) 1;
             ymd = (case named_month of
                      None \<Rightarrow>
                        if is_day (comp ! 0) then (comp ! 2, comp ! 0, comp ! 1)
                        else (comp ! 0, comp ! 1, comp ! 2)
                    | Some m \<Rightarrow>
                        if is_day (comp ! 0) then (comp ! 1, m + 1, comp ! 0)
                        else (comp ! 0, m + 1, comp ! 1))
         in case ymd of
              (year, month, day) \<Rightarrow>
                if is_month month \<and> is_day day
                then Some ((next_day ^^ (day - 1)) (full_year year, month - 1, 1))
                else None))"

text \<open>
  The date read is a local one, except when the middle word names a time zone: then it
  is midnight of that day in that zone, and the local calendar day is the same for a
  host whose clock runs on UTC, which is what the model takes the host to be in that
  case.
\<close>

definition parse_date :: "string \<Rightarrow> date option" where
  "parse_date s =
     (let word = take 3 (drop 3 s);
          tokens = runs word;
          wordTokens = filter (\<lambda>r. \<not> is_digit (hd r)) tokens;
          numbers = map number_of (filter (\<lambda>r. is_digit (hd r)) tokens)
      in if list_all known_word wordTokens
         then day_composer (month_index word)
                ([number_of (take 2 s)] @ numbers @ [number_of (drop 7 s)])
         else None)"

fun digits_of :: "nat \<Rightarrow> string" where
  "digits_of n = (if n < 10 then [char_of (48 + n)] else digits_of (n div 10) @ [char_of (48 + n mod 10)])"

definition two_digits :: "nat \<Rightarrow> string" where
  "two_digits n = (if n < 10 then CHR ''0'' # digits_of n else digits_of n)"

text \<open>
  \<^verbatim>\<open>toLocaleDateString("en-GB", {day: "2-digit", month: "short", year: "numeric"})\<close>
  followed by the two \<^verbatim>\<open>replace\<close> calls, which turn the \<^verbatim>\<open>Sept\<close> of newer locale data
  into \<^verbatim>\<open>Sep\<close>.
\<close>

fun format_date :: "date \<Rightarrow> string" where
  "format_date (y, m, d) = two_digits d @ '' '' @ monthNames ! m @ '' '' @ digits_of y"

text \<open>
  \<open>clonedDate\<close> is the calendar day of the \<^verbatim>\<open>Date\<close> object after \<^verbatim>\<open>setDate\<close> and
  \<^verbatim>\<open>setHours\<close>: the day read from the matched text, moved by \<^verbatim>\<open>dayOffset\<close> days and by
  the days that \<^verbatim>\<open>setHours(hour, minute)\<close> carries over. An invalid date stays invalid and
  prints as \<^verbatim>\<open>Invalid Date\<close>.
\<close>

definition clonedDate :: "string \<Rightarrow> nat \<Rightarrow> int \<Rightarrow> int \<Rightarrow> date option" where
  "clonedDate dateMatch dayOffset hour minute =
     (case parse_date dateMatch of
        None \<Rightarrow> None
      | Some dt \<Rightarrow> Some (shift_days ((hour * 60 + minute) div 1440) ((next_day ^^ dayOffset) dt)))"

definition updatedDate :: "string \<Rightarrow> nat \<Rightarrow> int \<Rightarrow> int \<Rightarrow> string" where
  "updatedDate dateMatch dayOffset hour minute =
     (case clonedDate dateMatch dayOffset hour minute of
        None \<Rightarrow> ''Invalid Date''
      | Some dt \<Rightarrow> format_date dt)"

text \<open>\<open>None\<close>: the name holds no match of the pattern.\<close>

definition newEmailName :: "string \<Rightarrow> nat \<Rightarrow> int \<Rightarrow> int \<Rightarrow> string option" where
  "newEmailName originalEmailName dayOffset hour minute =
     (case match_date originalEmailName of
        None \<Rightarrow> None
      | Some (before, dateMatch, after) \<Rightarrow>
          Some (before @ updatedDate dateMatch dayOffset hour minute @ after))"

section \<open>The cloner: existence checks\<close>

text \<open>
  A search by name either throws or answers with \<^verbatim>\<open>response.data\<close>, of which the code
  reads \<^verbatim>\<open>total\<close> and the length of \<^verbatim>\<open>results\<close>; either may be missing. The remote side is
  a function of the number of the request and of the name.
\<close>

datatype search_response = SearchFailed string | SearchData "int option" "nat option"

type_synonym search = "nat \<Rightarrow> string \<Rightarrow> search_response"

text \<open>
  The truth value of
  \<^verbatim>\<open>response.data.total > 0 || (response.data.results && response.data.results.length > 0)\<close>.
\<close>

definition found :: "int option \<Rightarrow> nat option \<Rightarrow> bool" where
  "found tot results =
     ((case tot of None \<Rightarrow> False | Some t \<Rightarrow> 0 < t) \<or>
      (case results of None \<Rightarrow> False | Some n \<Rightarrow> 0 < n))"

text \<open>
  \<^verbatim>\<open>checkEmailExists\<close> (cloner.js, lines 15 to 49; the unnamed file, lines 78 to 97):
  \<^verbatim>\<open>
  try {
    const response = await axios.get(`${BASE_URL}`, { params: { name: emailName, limit: 1 }, ... });
    const exists = response.data.total > 0 || (response.data.results && response.data.results.length > 0);
    return exists;
  } catch (error) {
    // Return false on error to allow cloning attempt
    return false;
  }
  \<close>
  The argument is what the request did.
\<close>

fun checkEmailExists :: "search_response \<Rightarrow> bool" where
  "checkEmailExists (SearchData tot results) = found tot results"
| "checkEmailExists (SearchFailed message) = False"

text \<open>
  \<^verbatim>\<open>batchCheckEmailsExist\<close> (the unnamed file, lines 16 to 75):
  \<^verbatim>\<open>
  if (emailNames.length === 0) return {};
  const existsMap = {};
  emailNames.forEach(name => existsMap[name] = false);
  for (let i = 0; i < emailNames.length; i += 5) {
    const batch = emailNames.slice(i, i + 5);
    const batchPromises = batch.map(async (emailName) => {
      try {
        const response = await axios.get(...);
        const exists = response.data.total > 0 || (...);
        return { emailName, exists };
      } catch (error) {
        return { emailName, exists: false };
      }
    });
    const batchResults = await Promise.all(batchPromises);
    batchResults.forEach(result => { existsMap[result.emailName] = result.exists; });
    if (i + 5 < emailNames.length) { await new Promise(resolve => setTimeout(resolve, 200)); }
  }
  return existsMap;
  \<close>
  The name at position \<open>p\<close> of \<^verbatim>\<open>emailNames\<close> is looked up by request number \<open>p\<close>. Every
  request is inside its own \<^verbatim>\<open>try\<close>, so the outer \<^verbatim>\<open>catch\<close> of the function is never
  entered and is left out, as is the pause.
\<close>

fun check_batch :: "search \<Rightarrow> nat \<Rightarrow> string list \<Rightarrow> (string \<times> bool) list" where
  "check_batch search p [] = []"
| "check_batch search p (emailName # batch) =
     (emailName, checkEmailExists (search p emailName)) # check_batch search (p + 1) batch"

fun record_results :: "(string \<times> bool) list \<Rightarrow> (string \<rightharpoonup> bool) \<Rightarrow> (string \<rightharpoonup> bool)" where
  "record_results [] existsMap = existsMap"
| "record_results ((emailName, e) # batchResults) existsMap =
     record_results batchResults (existsMap(emailName \<mapsto> e))"

function batch_loop :: "search \<Rightarrow> string list \<Rightarrow> nat \<Rightarrow> (string \<rightharpoonup> bool) \<Rightarrow> (string \<rightharpoonup> bool)" where
  "batch_loop search emailNames i existsMap =
     (if i < length emailNames then
        (let batch = slice emailNames i (i + 5);
             batchResults = check_batch search i batch
         in batch_loop search emailNames (i + 5) (record_results batchResults existsMap))
      else existsMap)"
  by pat_completeness auto
termination
  by (relation "measure (\<lambda>(search, emailNames, i, existsMap). length emailNames - i)") auto

definition batchCheckEmailsExist :: "search \<Rightarrow> string list \<Rightarrow> (string \<rightharpoonup> bool)" where
  "batchCheckEmailsExist search emailNames =
     (if emailNames = [] then Map.empty
      else batch_loop search emailNames 0
             (record_results (map (\<lambda>name. (name, False)) emailNames) Map.empty))"

text \<open>The truth value of \<^verbatim>\<open>hubspotDuplicates[name]\<close>.\<close>

definition flagged :: "(string \<rightharpoonup> bool) \<Rightarrow> string \<Rightarrow> bool" where
  "flagged existsMap name = (case existsMap name of None \<Rightarrow> False | Some e \<Rightarrow> e)"

section \<open>The cloner: time slots\<close>

record customOptions =
  customStartHour :: "nat option"
  customStartMinute :: "nat option"
  customInterval :: "nat option"

text \<open>\<^verbatim>\<open>x || d\<close> for a number that may be missing: missing and 0 both give \<open>d\<close>.\<close>

definition or_default :: "nat option \<Rightarrow> nat \<Rightarrow> nat" where
  "or_default x d = (case x of None \<Rightarrow> d | Some v \<Rightarrow> if v = 0 then d else v)"

record counters =
  morningMinuteCounter :: int
  afternoonMinuteCounter :: int
  customTimeCounter :: int
  emailIndex :: nat

definition MAX_MORNING_SLOTS :: nat where
  "MAX_MORNING_SLOTS = 12"

text \<open>
  \<^verbatim>\<open>if (minute >= 60) { hour += Math.floor(minute / 60); minute = minute % 60; }\<close>
\<close>

definition roll :: "int \<times> int \<Rightarrow> int \<times> int" where
  "roll hm = (case hm of (hour, minute) \<Rightarrow>
                if 60 \<le> minute then (hour + minute div 60, minute mod 60) else (hour, minute))"

text \<open>
  The \<^verbatim>\<open>switch (strategy)\<close> of the unnamed file, lines 365 to 443: the hour and minute
  for the next email of the day, and the counters after it.
  \<^verbatim>\<open>
  case "morning":
    hour = 11; minute = morningMinuteCounter; morningMinuteCounter += 5;
    if (minute >= 60) { hour += Math.floor(minute / 60); minute = minute % 60; }
    break;
  case "afternoon":
    hour = 16; minute = afternoonMinuteCounter; afternoonMinuteCounter += 5;
    if (minute >= 60) { ... }
    break;
  case "custom":
    const startHour = customOptions.customStartHour || 11;
    const startMinute = customOptions.customStartMinute || 0;
    const interval = customOptions.customInterval || 5;
    const startTotalMinutes = startHour * 60 + startMinute;
    const scheduledTotalMinutes = startTotalMinutes + (customTimeCounter * interval);
    let scheduledHour = Math.floor(scheduledTotalMinutes / 60);
    let scheduledMinute = scheduledTotalMinutes % 60;
    if (scheduledHour === 11 && scheduledMinute <= 55) {
      hour = scheduledHour; minute = scheduledMinute;
    } else if (scheduledHour < 11 || (scheduledHour === 11 && scheduledMinute <= 55)) {
      hour = 11; minute = customTimeCounter * interval;
      if (minute > 55) {
        const afternoonOffset = minute - 55 - 1;
        hour = 16; minute = afternoonOffset;
        if (minute >= 60) { ... }
      }
    } else {
      const morningSlots = Math.floor(56 / interval);
      const afternoonIndex = customTimeCounter - morningSlots;
      hour = 16; minute = afternoonIndex * interval;
      if (minute >= 60) { ... }
    }
    customTimeCounter++;
    break;
  case "smart":
  default:
    if (emailIndex < MAX_MORNING_SLOTS) {
      hour = 11; minute = morningMinuteCounter; morningMinuteCounter += 5;
    } else {
      hour = 16; minute = afternoonMinuteCounter; afternoonMinuteCounter += 5;
    }
    if (minute >= 60) { ... }
    emailIndex++;
    break;
  \<close>
\<close>

definition custom_slot :: "customOptions \<Rightarrow> int \<Rightarrow> int \<times> int" where
  "custom_slot opts counter =
     (let startHour = int (or_default (customStartHour opts) 11);
          startMinute = int (or_default (customStartMinute opts) 0);
          interval = int (or_default (customInterval opts) 5);
          startTotalMinutes = startHour * 60 + startMinute;
          scheduledTotalMinutes = startTotalMinutes + counter * interval;
          scheduledHour = scheduledTotalMinutes div 60;
          scheduledMinute = scheduledTotalMinutes mod 60
      in if scheduledHour = 11 \<and> scheduledMinute \<le> 55 then (scheduledHour, scheduledMinute)
         else if scheduledHour < 11 \<or> (scheduledHour = 11 \<and> scheduledMinute \<le> 55) then
           (let minute = counter * interval
            in if 55 < minute then roll (16, minute - 55 - 1) else (11, minute))
         else
           (let morningSlots = 56 div interval;
                afternoonIndex = counter - morningSlots
            in roll (16, afternoonIndex * interval)))"

definition next_slot :: "string \<Rightarrow> customOptions \<Rightarrow> counters \<Rightarrow> (int \<times> int) \<times> counters" where
  "next_slot strategy opts c =
     (if strategy = ''morning'' then
        (roll (11, morningMinuteCounter c),
         c\<lparr>morningMinuteCounter := morningMinuteCounter c + 5\<rparr>)
      else if strategy = ''afternoon'' then
        (roll (16, afternoonMinuteCounter c),
         c\<lparr>afternoonMinuteCounter := afternoonMinuteCounter c + 5\<rparr>)
      else if strategy = ''custom'' then
        (custom_slot opts (customTimeCounter c),
         c\<lparr>customTimeCounter := customTimeCounter c + 1\<rparr>)
      else if emailIndex c < MAX_MORNING_SLOTS then
        (roll (11, morningMinuteCounter c),
         c\<lparr>morningMinuteCounter := morningMinuteCounter c + 5, emailIndex := emailIndex c + 1\<rparr>)
      else
        (roll (16, afternoonMinuteCounter c),
         c\<lparr>afternoonMinuteCounter := afternoonMinuteCounter c + 5, emailIndex := emailIndex c + 1\<rparr>))"

definition start_of_day :: counters where
  "start_of_day = \<lparr>morningMinuteCounter = 0, afternoonMinuteCounter = 0,
                    customTimeCounter = 0, emailIndex = 0\<rparr>"

text \<open>
  The slots that the switch gives to \<open>n\<close> emails in a row, from the counters \<open>c\<close> on.
\<close>

fun slots_from :: "string \<Rightarrow> customOptions \<Rightarrow> counters \<Rightarrow> nat \<Rightarrow> (int \<times> int) list" where
  "slots_from strategy opts c 0 = []"
| "slots_from strategy opts c (Suc n) =
     (case next_slot strategy opts c of (slot, c') \<Rightarrow> slot # slots_from strategy opts c' n)"

text \<open>
  The smart strategy in the words of the specification: the email at index \<open>i\<close> of the
  day is placed in the morning hour at minute \<open>5 i\<close> when \<open>i < 12\<close>, and otherwise in the
  afternoon hour, \<open>5 (i - 12)\<close> minutes after its start, minutes from 60 on being rolled
  into the hour.
\<close>

definition spec_smart_slot :: "nat \<Rightarrow> int \<times> int" where
  "spec_smart_slot i =
     (if i < 12 then (11, 5 * int i)
      else (16 + (5 * (int i - 12)) div 60, (5 * (int i - 12)) mod 60))"

section \<open>The cloner: the batch version (the unnamed file)\<close>

text \<open>
  What the run asks of the outside: the name of a source email (\<open>None\<close>: the request
  throws), the names held by the audit store (\<open>Inl\<close>: the query throws), the search by
  name, and the cloning of one email under its new name, which answers the identifier of
  the clone (\<open>None\<close>: one of the requests of \<^verbatim>\<open>cloneAndScheduleEmailOptimized\<close> throws).
  The requests are numbered by their position in the run.
\<close>

record remote =
  getName :: "nat \<Rightarrow> string \<Rightarrow> string option"
  storedNames :: "string + string list"
  searchByName :: search
  cloneEmail :: "nat \<Rightarrow> string \<Rightarrow> string \<Rightarrow> string option"

record stats =
  totalAttempted :: nat
  successfullyCloned :: nat
  duplicatesSkipped :: nat
  errors :: nat
  clonedEmails :: "(string \<times> string) list"

text \<open>
  Lines 324 to 340: the names of the source emails.
  \<^verbatim>\<open>
  for (const emailId of emailIds) {
    try {
      const response = await axios.get(`${BASE_URL}/${emailId}`, ...);
      emailInfoMap.set(emailId, response.data.name);
    } catch (error) {
      stats.errors++;
    }
  }
  \<close>
\<close>

fun fetch_info ::
  "(nat \<Rightarrow> string \<Rightarrow> string option) \<Rightarrow> string list \<Rightarrow> nat \<Rightarrow> (string \<rightharpoonup> string) \<Rightarrow> nat \<Rightarrow>
   (string \<rightharpoonup> string) \<times> nat" where
  "fetch_info get [] p emailInfoMap errs = (emailInfoMap, errs)"
| "fetch_info get (emailId # emailIds) p emailInfoMap errs =
     (case get p emailId of
        None \<Rightarrow> fetch_info get emailIds (p + 1) emailInfoMap (errs + 1)
      | Some name \<Rightarrow> fetch_info get emailIds (p + 1) (emailInfoMap(emailId \<mapsto> name)) errs)"

text \<open>
  A schedule entry: \<^verbatim>\<open>originalEmailId\<close>, \<^verbatim>\<open>day\<close>, \<^verbatim>\<open>hour\<close>, \<^verbatim>\<open>minute\<close> and the calendar
  day of \<^verbatim>\<open>scheduledTime\<close>.
\<close>

type_synonym schedule = "string \<times> nat \<times> int \<times> int \<times> date option"

text \<open>
  What the planning loop builds: \<^verbatim>\<open>emailNamesToCheck\<close>, \<^verbatim>\<open>emailScheduleMap\<close>, and the two
  counters of \<^verbatim>\<open>stats\<close> it changes. \<open>slotsGiven\<close> lists the hour and minute computed for
  each email that had a name, in the order of the loop; the source keeps them only
  inside the schedule entries.
\<close>

record planning =
  emailNamesToCheck :: "string list"
  emailScheduleMap :: "string \<rightharpoonup> schedule"
  errorCount :: nat
  attemptCount :: nat
  slotsGiven :: "(int \<times> int) list"

text \<open>\<^verbatim>\<open>if (!originalEmailName)\<close>: a missing name and the empty name are both skipped.\<close>

definition usable :: "string option \<Rightarrow> string option" where
  "usable name = (case name of None \<Rightarrow> None | Some n \<Rightarrow> if n = [] then None else Some n)"

text \<open>
  Lines 353 to 480, the loop over the emails of one day:
  \<^verbatim>\<open>
  for (let i = 0; i < emailIds.length; i++) {
    const emailId = emailIds[i];
    const originalEmailName = emailInfoMap.get(emailId);
    if (!originalEmailName) { stats.errors++; continue; }
    let hour, minute;
    switch (strategy) { ... }
    const datePattern = /\d{2} \w{3} \d{4}/;
    const dateMatch = originalEmailName.match(datePattern);
    if (dateMatch) {
      ...
      const newEmailName = originalEmailName.replace(dateMatch[0], updatedDate);
      emailNamesToCheck.push(newEmailName);
      emailScheduleMap.set(newEmailName, { originalEmailId: emailId, day, hour, minute,
                                           scheduledTime: clonedDate, originalEmailName });
    } else {
      stats.errors++;
    }
    stats.totalAttempted++;
  }
  \<close>
\<close>

fun plan_day ::
  "string \<Rightarrow> customOptions \<Rightarrow> (string \<rightharpoonup> string) \<Rightarrow> nat \<Rightarrow> string list \<Rightarrow> counters \<Rightarrow>
   planning \<Rightarrow> planning" where
  "plan_day strategy opts emailInfoMap day [] c pl = pl"
| "plan_day strategy opts emailInfoMap day (emailId # emailIds) c pl =
     (case usable (emailInfoMap emailId) of
        None \<Rightarrow>
          plan_day strategy opts emailInfoMap day emailIds c (pl\<lparr>errorCount := errorCount pl + 1\<rparr>)
      | Some originalEmailName \<Rightarrow>
          (case next_slot strategy opts c of
             ((hour, minute), c') \<Rightarrow>
               (case match_date originalEmailName of
                  Some (before, dateMatch, after) \<Rightarrow>
                    (let name = before @ updatedDate dateMatch day hour minute @ after
                     in plan_day strategy opts emailInfoMap day emailIds c'
                          (pl\<lparr>emailNamesToCheck := emailNamesToCheck pl @ [name],
                              emailScheduleMap := (emailScheduleMap pl)
                                (name \<mapsto> (emailId, day, hour, minute,
                                            clonedDate dateMatch day hour minute)),
                              attemptCount := attemptCount pl + 1,
                              slotsGiven := slotsGiven pl @ [(hour, minute)]\<rparr>))
                | None \<Rightarrow>
                    plan_day strategy opts emailInfoMap day emailIds c'
                      (pl\<lparr>errorCount := errorCount pl + 1,
                          attemptCount := attemptCount pl + 1,
                          slotsGiven := slotsGiven pl @ [(hour, minute)]\<rparr>))))"

text \<open>
  Lines 346 to 351 and 481: \<^verbatim>\<open>for (let day = 1; day <= cloningCount; day++)\<close>, the
  counters starting from 0 every day.
\<close>

fun plan_days ::
  "string \<Rightarrow> customOptions \<Rightarrow> (string \<rightharpoonup> string) \<Rightarrow> string list \<Rightarrow> nat list \<Rightarrow>
   planning \<Rightarrow> planning" where
  "plan_days strategy opts emailInfoMap emailIds [] pl = pl"
| "plan_days strategy opts emailInfoMap emailIds (day # days) pl =
     plan_days strategy opts emailInfoMap emailIds days
       (plan_day strategy opts emailInfoMap day emailIds start_of_day pl)"

text \<open>
  Lines 495 to 504:
  \<^verbatim>\<open>
  const emailsToProcess = emailNamesToCheck.filter(name => {
    if (processedEmailsCache.has(name) || dbDuplicateNames.has(name) || hubspotDuplicates[name]) {
      stats.duplicatesSkipped++;
      return false;
    }
    processedEmailsCache.add(name);
    return true;
  });
  \<close>
  The result is \<^verbatim>\<open>emailsToProcess\<close>, the cache and \<^verbatim>\<open>duplicatesSkipped\<close> afterwards.
\<close>

fun filter_duplicates ::
  "string list \<Rightarrow> string set \<Rightarrow> (string \<rightharpoonup> bool) \<Rightarrow> string set \<Rightarrow> nat \<Rightarrow>
   string list \<times> string set \<times> nat" where
  "filter_duplicates [] dbDuplicateNames hubspotDuplicates processedEmailsCache skipped =
     ([], processedEmailsCache, skipped)"
| "filter_duplicates (name # names) dbDuplicateNames hubspotDuplicates processedEmailsCache skipped =
     (if name \<in> processedEmailsCache \<or> name \<in> dbDuplicateNames \<or> flagged hubspotDuplicates name
      then filter_duplicates names dbDuplicateNames hubspotDuplicates processedEmailsCache (skipped + 1)
      else (case filter_duplicates names dbDuplicateNames hubspotDuplicates
                   (insert name processedEmailsCache) skipped of
              (kept, cache, n) \<Rightarrow> (name # kept, cache, n)))"

text \<open>
  \<^verbatim>\<open>cloneAndScheduleEmailOptimized\<close> (lines 563 to 666), the whole of it inside one
  \<^verbatim>\<open>try\<close> whose \<^verbatim>\<open>catch\<close> returns \<^verbatim>\<open>{success: false, ...}\<close>:
  \<^verbatim>\<open>
  console.log(`Scheduled for: ${scheduledTime.toISOString()} ...`);
  const response = await axios.get(`${BASE_URL}/${originalEmailId}`, ...);
  ...
  const cloneResponse = await axios.post(`${BASE_URL}/${originalEmailId}/clone`, {}, ...);
  const clonedEmail = cloneResponse.data;
  ...
  await axios.put(`${BASE_URL}/${clonedEmail.id}`, updateEmailData, ...);
  try { ... await clonedEmailRecord.save(); } catch (saveError) { ... }
  return { success: true, emailId: clonedEmail.id, emailName: newEmailName, ... };
  \<close>
  \<^verbatim>\<open>toISOString\<close> throws for an invalid date, before any request is made. The result is
  the identifier of the clone, or \<open>None\<close> for \<^verbatim>\<open>{success: false, ...}\<close>. \<open>p\<close> is the
  number of the call in the run.
\<close>

definition cloneAndScheduleEmailOptimized ::
  "(nat \<Rightarrow> string \<Rightarrow> string \<Rightarrow> string option) \<Rightarrow> nat \<Rightarrow> string \<Rightarrow> string \<Rightarrow> date option \<Rightarrow>
   string option" where
  "cloneAndScheduleEmailOptimized clone p originalEmailId emailName scheduledTime =
     (case scheduledTime of
        None \<Rightarrow> None
      | Some dt \<Rightarrow> clone p originalEmailId emailName)"

text \<open>
  Lines 508 to 546: the emails left are cloned three at a time, and the results are
  counted in the order of \<^verbatim>\<open>emailsToProcess\<close>.
  \<^verbatim>\<open>
  const batchPromises = batch.map(async (emailName) => {
    const schedule = emailScheduleMap.get(emailName);
    const result = await cloneAndScheduleEmailOptimized(schedule.originalEmailId, ...,
                                                        emailName, schedule.scheduledTime, strategy);
    return result;
  });
  const batchResults = await Promise.all(batchPromises);
  batchResults.forEach(result => {
    if (result.success) { stats.successfullyCloned++; stats.clonedEmails.push({...}); }
    else { stats.errors++; }
  });
  \<close>
  A name without a schedule entry would make the whole run fail (\<open>Inl\<close>). The result
  holds, beside the counts, the names \<^verbatim>\<open>cloneAndScheduleEmailOptimized\<close> was called for,
  in the order of the calls.
\<close>

fun clone_all ::
  "(nat \<Rightarrow> string \<Rightarrow> string \<Rightarrow> string option) \<Rightarrow> (string \<rightharpoonup> schedule) \<Rightarrow> string list \<Rightarrow> nat \<Rightarrow>
   stats \<Rightarrow> string list \<Rightarrow> string + (stats \<times> string list)" where
  "clone_all clone scheduleMap [] p st requested = Inr (st, requested)"
| "clone_all clone scheduleMap (emailName # emailsToProcess) p st requested =
     (case scheduleMap emailName of
        None \<Rightarrow> Inl ''Cannot read properties of undefined''
      | Some (originalEmailId, day, hour, minute, scheduledTime) \<Rightarrow>
          (case cloneAndScheduleEmailOptimized clone p originalEmailId emailName scheduledTime of
             Some clonedId \<Rightarrow>
               clone_all clone scheduleMap emailsToProcess (p + 1)
                 (st\<lparr>successfullyCloned := successfullyCloned st + 1,
                     clonedEmails := clonedEmails st @ [(clonedId, emailName)]\<rparr>)
                 (requested @ [emailName])
           | None \<Rightarrow>
               clone_all clone scheduleMap emailsToProcess (p + 1)
                 (st\<lparr>errors := errors st + 1\<rparr>) (requested @ [emailName])))"


text \<open>
  Lines 320 to 481 together: the names are fetched, then every day is planned.
\<close>

definition planned :: "remote \<Rightarrow> string list \<Rightarrow> nat \<Rightarrow> string \<Rightarrow> customOptions \<Rightarrow> planning" where
  "planned r emailIds cloningCount strategy opts =
     (case fetch_info (getName r) emailIds 0 Map.empty 0 of
        (emailInfoMap, errs) \<Rightarrow>
          plan_days strategy opts emailInfoMap emailIds [1..<cloningCount + 1]
            \<lparr>emailNamesToCheck = [], emailScheduleMap = Map.empty,
             errorCount = errs, attemptCount = 0, slotsGiven = []\<rparr>)"

text \<open>
  \<^verbatim>\<open>EmailCloner\<close> (lines 308 to 560). The first component of the result is the
  statistics with the names handed to the cloning, or the message of the failure; the
  second is \<^verbatim>\<open>processedEmailsCache\<close> afterwards.
\<close>

definition EmailCloner ::
  "remote \<Rightarrow> string set \<Rightarrow> string list \<Rightarrow> nat \<Rightarrow> string \<Rightarrow> customOptions \<Rightarrow>
   (string + (stats \<times> string list)) \<times> string set" where
  "EmailCloner r processedEmailsCache emailIds cloningCount strategy opts =
     (let pl = planned r emailIds cloningCount strategy opts
      in case storedNames r of
           Inl message \<Rightarrow>
             (Inl (''Failed to complete cloning process: '' @ message), processedEmailsCache)
         | Inr stored \<Rightarrow>
             (let hubspotDuplicates =
                    batchCheckEmailsExist (searchByName r) (emailNamesToCheck pl)
              in case filter_duplicates (emailNamesToCheck pl) (set stored)
                        hubspotDuplicates processedEmailsCache 0 of
                   (emailsToProcess, cache, skipped) \<Rightarrow>
                     (case clone_all (cloneEmail r) (emailScheduleMap pl) emailsToProcess 0
                             \<lparr>totalAttempted = attemptCount pl, successfullyCloned = 0,
                              duplicatesSkipped = skipped, errors = errorCount pl,
                              clonedEmails = []\<rparr> [] of
                        Inl message \<Rightarrow>
                          (Inl (''Failed to complete cloning process: '' @ message), cache)
                      | Inr done \<Rightarrow> (Inr done, cache))))"

section \<open>The cloner: the one-by-one version (cloner.js)\<close>

text \<open>
  cloner.js clones the emails one after the other. What it asks of the outside, the
  requests numbered by the pair of day and email they are made for: the name of the
  source email (\<open>None\<close>: the request throws), \<^verbatim>\<open>ClonedEmail.findOne\<close> by name (\<open>None\<close>:
  the query throws), the search by name, and the cloning under the new name, which
  answers the identifier of the clone (\<open>None\<close>: the clone or the update request
  throws).
\<close>

record remote_cloner_js =
  getEmail :: "nat \<Rightarrow> string \<Rightarrow> string option"
  findOne :: "nat \<Rightarrow> string \<Rightarrow> bool option"
  searchName :: search
  cloneAndUpdate :: "nat \<Rightarrow> string \<Rightarrow> string \<Rightarrow> string option"

text \<open>
  The object \<^verbatim>\<open>cloneAndScheduleEmail\<close> returns: \<^verbatim>\<open>{success: true, emailId, emailName}\<close>,
  \<^verbatim>\<open>{success: false, skipped: true, reason}\<close> or \<^verbatim>\<open>{success: false, error}\<close>.
\<close>

datatype clone_result = CloneSuccess string string | CloneSkipped string | CloneError

text \<open>
  \<^verbatim>\<open>cloneAndScheduleEmail\<close> (cloner.js, lines 51 to 238), the whole of it inside one
  \<^verbatim>\<open>try\<close> whose \<^verbatim>\<open>catch\<close> returns the error object:
  \<^verbatim>\<open>
  const response = await axios.get(`${BASE_URL}/${originalEmailId}`, ...);
  const originalEmailName = response.data.name;
  ...
  const dateMatch = originalEmailName.match(datePattern);
  if (!dateMatch) {
    return { success: false, skipped: true, reason: "No date in original email name" };
  }
  ...
  const newEmailName = originalEmailName.replace(dateMatch[0], updatedDate);
  if (processedEmailsCache.has(newEmailName)) {
    return { success: false, skipped: true, reason: "Duplicate in current batch" };
  }
  try {
    const existingInDB = await ClonedEmail.findOne({ clonedEmailName: newEmailName });
    if (existingInDB) {
      return { success: false, skipped: true, reason: "Duplicate in database" };
    }
  } catch (dbError) {
    // Continue with cloning despite database check error
  }
  const emailExists = await checkEmailExists(newEmailName);
  if (emailExists) {
    return { success: false, skipped: true, reason: "Duplicate in HubSpot" };
  }
  processedEmailsCache.add(newEmailName);
  const cloneResponse = await axios.post(`${BASE_URL}/${originalEmailId}/clone`, ...);
  ...
  await axios.put(`${BASE_URL}/${clonedEmail.id}`, updateEmailData, ...);
  ...
  return { success: true, emailId: clonedEmail.id, emailName: newEmailName,
           scheduledTime: clonedDate.toISOString() };
  \<close>
  \<^verbatim>\<open>toISOString\<close> throws for an invalid date, after the clone has been made. The result
  comes with the cache afterwards and with the name a clone was requested under, if one
  was.
\<close>

definition cloneAndScheduleEmail ::
  "remote_cloner_js \<Rightarrow> nat \<Rightarrow> string set \<Rightarrow> string \<Rightarrow> nat \<Rightarrow> int \<Rightarrow> int \<Rightarrow>
   clone_result \<times> string set \<times> string option" where
  "cloneAndScheduleEmail r p processedEmailsCache originalEmailId dayOffset hour minute =
     (case getEmail r p originalEmailId of
        None \<Rightarrow> (CloneError, processedEmailsCache, None)
      | Some originalEmailName \<Rightarrow>
          (case match_date originalEmailName of
             None \<Rightarrow> (CloneSkipped ''No date in original email name'', processedEmailsCache, None)
           | Some (before, dateMatch, after) \<Rightarrow>
               (let name = before @ updatedDate dateMatch dayOffset hour minute @ after
                in if name \<in> processedEmailsCache
                   then (CloneSkipped ''Duplicate in current batch'', processedEmailsCache, None)
                   else if findOne r p name = Some True
                   then (CloneSkipped ''Duplicate in database'', processedEmailsCache, None)
                   else if checkEmailExists (searchName r p name)
                   then (CloneSkipped ''Duplicate in HubSpot'', processedEmailsCache, None)
                   else (case cloneAndUpdate r p originalEmailId name of
                           None \<Rightarrow> (CloneError, insert name processedEmailsCache, Some name)
                         | Some clonedId \<Rightarrow>
                             (case clonedDate dateMatch dayOffset hour minute of
                                None \<Rightarrow> (CloneError, insert name processedEmailsCache, Some name)
                              | Some dt \<Rightarrow>
                                  (CloneSuccess clonedId name,
                                   insert name processedEmailsCache, Some name))))))"

text \<open>
  The \<^verbatim>\<open>switch (strategy)\<close> of cloner.js, lines 291 to 320, on the two counters
  \<^verbatim>\<open>minuteCounter\<close> and \<^verbatim>\<open>morningSlotsUsed\<close>:
  \<^verbatim>\<open>
  case "morning":   hour = 11; minute = minuteCounter; minuteCounter += 5; break;
  case "afternoon": hour = 16; minute = minuteCounter; minuteCounter += 5; break;
  case "custom":    hour = 11; minute = minuteCounter; minuteCounter += 5; break;
  default:
    if (morningSlotsUsed < MAX_MORNING_SLOTS) {
      hour = 11; minute = minuteCounter; minuteCounter += 5; morningSlotsUsed++;
    } else {
      hour = 16; minute = minuteCounter - MAX_MORNING_SLOTS * 5;
    }
  \<close>
\<close>

definition next_slot_cloner_js :: "string \<Rightarrow> int \<times> nat \<Rightarrow> (int \<times> int) \<times> (int \<times> nat)" where
  "next_slot_cloner_js strategy c =
     (case c of (minuteCounter, morningSlotsUsed) \<Rightarrow>
        if strategy = ''morning'' then ((11, minuteCounter), (minuteCounter + 5, morningSlotsUsed))
        else if strategy = ''afternoon'' then ((16, minuteCounter), (minuteCounter + 5, morningSlotsUsed))
        else if strategy = ''custom'' then ((11, minuteCounter), (minuteCounter + 5, morningSlotsUsed))
        else if morningSlotsUsed < MAX_MORNING_SLOTS
        then ((11, minuteCounter), (minuteCounter + 5, morningSlotsUsed + 1))
        else ((16, minuteCounter - int MAX_MORNING_SLOTS * 5), (minuteCounter, morningSlotsUsed)))"

text \<open>
  The slots that this switch gives to \<open>n\<close> emails in a row, from the counters \<open>c\<close> on.
\<close>

fun slots_cloner_js :: "string \<Rightarrow> int \<times> nat \<Rightarrow> nat \<Rightarrow> (int \<times> int) list" where
  "slots_cloner_js strategy c 0 = []"
| "slots_cloner_js strategy c (Suc n) =
     (case next_slot_cloner_js strategy c of (slot, c') \<Rightarrow> slot # slots_cloner_js strategy c' n)"

text \<open>
  The state of a run of cloner.js: the statistics, the cache, the names a clone was
  requested under, and the slots given out, both in the order of the run.
\<close>

record run_cloner_js =
  run_stats :: stats
  run_cache :: "string set"
  run_requested :: "string list"
  run_slots :: "(int \<times> int) list"

text \<open>
  cloner.js, lines 287 to 346, the loop over the emails of one day:
  \<^verbatim>\<open>
  for (let i = 0; i < emailIds.length; i++) {
    const emailId = emailIds[i];
    let hour, minute;
    switch (strategy) { ... }
    stats.totalAttempted++;
    const result = await cloneAndScheduleEmail(emailId, day, hour, minute, strategy);
    if (result.success) {
      stats.successfullyCloned++;
      stats.clonedEmails.push({ id: result.emailId, name: result.emailName, ... });
    } else if (result.skipped) {
      stats.duplicatesSkipped++;
    } else {
      stats.errors++;
    }
    await new Promise((resolve) => setTimeout(resolve, 1000));
  }
  \<close>
\<close>

definition count_result :: "clone_result \<Rightarrow> stats \<Rightarrow> stats" where
  "count_result result st =
     (case result of
        CloneSuccess clonedId name \<Rightarrow>
          st\<lparr>successfullyCloned := successfullyCloned st + 1,
             clonedEmails := clonedEmails st @ [(clonedId, name)]\<rparr>
      | CloneSkipped reason \<Rightarrow> st\<lparr>duplicatesSkipped := duplicatesSkipped st + 1\<rparr>
      | CloneError \<Rightarrow> st\<lparr>errors := errors st + 1\<rparr>)"

fun day_cloner_js ::
  "remote_cloner_js \<Rightarrow> string \<Rightarrow> nat \<Rightarrow> string list \<Rightarrow> int \<times> nat \<Rightarrow> run_cloner_js \<Rightarrow> run_cloner_js" where
  "day_cloner_js r strategy day [] c run = run"
| "day_cloner_js r strategy day (emailId # emailIds) c run =
     (case next_slot_cloner_js strategy c of
        ((hour, minute), c') \<Rightarrow>
          (let p = totalAttempted (run_stats run);
               st = (run_stats run)\<lparr>totalAttempted := p + 1\<rparr>
           in case cloneAndScheduleEmail r p (run_cache run) emailId day hour minute of
                (result, cache, request) \<Rightarrow>
                  day_cloner_js r strategy day emailIds c'
                    \<lparr>run_stats = count_result result st,
                     run_cache = cache,
                     run_requested = run_requested run @ (case request of None \<Rightarrow> [] | Some n \<Rightarrow> [n]),
                     run_slots = run_slots run @ [(hour, minute)]\<rparr>))"

fun days_cloner_js ::
  "remote_cloner_js \<Rightarrow> string \<Rightarrow> string list \<Rightarrow> nat list \<Rightarrow> run_cloner_js \<Rightarrow> run_cloner_js" where
  "days_cloner_js r strategy emailIds [] run = run"
| "days_cloner_js r strategy emailIds (day # days) run =
     days_cloner_js r strategy emailIds days (day_cloner_js r strategy day emailIds (0, 0) run)"

text \<open>
  \<^verbatim>\<open>EmailCloner\<close> of cloner.js (lines 272 to 361). Nothing in its \<^verbatim>\<open>try\<close> can throw, every
  call being caught further in, so it always returns the statistics.
\<close>

definition EmailCloner_cloner_js ::
  "remote_cloner_js \<Rightarrow> string set \<Rightarrow> string list \<Rightarrow> nat \<Rightarrow> string \<Rightarrow> run_cloner_js" where
  "EmailCloner_cloner_js r processedEmailsCache emailIds cloningCount strategy =
     days_cloner_js r strategy emailIds [1..<cloningCount + 1]
       \<lparr>run_stats = \<lparr>totalAttempted = 0, successfullyCloned = 0, duplicatesSkipped = 0,
                     errors = 0, clonedEmails = []\<rparr>,
        run_cache = processedEmailsCache, run_requested = [], run_slots = []\<rparr>"

section \<open>Properties of the array primitives\<close>





section \<open>Chunking: what \<open>progressiveChunks\<close> computes\<close>

declare pc_while.simps [simp del]
declare chunks_of.simps [simp del]

lemma chunks_of_Nil [simp]: "chunks_of sz [] = []"
  by (simp add: chunks_of.simps)

lemma chunks_of_step:
  "0 < sz \<Longrightarrow> xs \<noteq> [] \<Longrightarrow> chunks_of sz xs = take sz xs # chunks_of sz (drop sz xs)"
  by (subst chunks_of.simps) simp

lemma pc_while_done: "length arr \<le> index \<Longrightarrow> pc_while arr sz index result = (index, result)"
  by (subst pc_while.simps) simp

lemma pc_while_step:
  "0 < sz \<Longrightarrow> index < length arr \<Longrightarrow>
   pc_while arr sz index result = pc_while arr sz (index + sz) (result @ [take sz (drop index arr)])"
  by (subst pc_while.simps) (simp add: slice_def Let_def)

text \<open>
  With a positive size the inner loop runs until the index has passed the end of the
  array: it emits every chunk of that size and the shorter rest as a last chunk.
\<close>

lemma pc_while_chunks:
  "0 < sz \<Longrightarrow> index \<le> length arr \<Longrightarrow>
   snd (pc_while arr sz index result) = result @ chunks_of sz (drop index arr) \<and>
   length arr \<le> fst (pc_while arr sz index result)"
proof (induction "length arr - index" arbitrary: index result rule: less_induct)
  case less
  show ?case
  proof (cases "index < length arr")
    case False
    with less.prems show ?thesis by (simp add: pc_while_done)
  next
    case True
    note step = pc_while_step [OF less.prems(1) True, of result]
    show ?thesis
    proof (cases "index + sz \<le> length arr")
      case le: True
      have "length arr - (index + sz) < length arr - index" using True less.prems(1) by simp
      from less.hyps [OF this less.prems(1) le, of "result @ [take sz (drop index arr)]"]
      show ?thesis using True less.prems(1)
        by (simp add: step chunks_of_step [of sz "drop index arr"] add.commute)
    next
      case False
      then have "length arr \<le> index + sz" by simp
      then show ?thesis using True less.prems(1)
        by (simp add: step pc_while_done chunks_of_step [of sz "drop index arr"])
    qed
  qed
qed

lemma pc_for_done: "length arr \<le> index \<Longrightarrow> pc_for arr sizes index result = result"
  by (induction sizes arbitrary: index result) (simp_all add: pc_while_done)

text \<open>
  So the first tier of a schedule takes the whole input and the other tiers are never
  reached: \<open>progressiveChunks\<close> is fixed-size chunking by the first size.
\<close>

lemma progressiveChunks_first_tier:
  "0 < sz \<Longrightarrow> progressiveChunks arr (sz # sizes) = chunks_of sz arr"
  using pc_while_chunks [of sz 0 arr "[]"]
  by (simp add: progressiveChunks_def split_beta pc_for_done)

lemma chunks_of_lengths:
  "0 < sz \<Longrightarrow> map length (chunks_of sz xs) =
     replicate (length xs div sz) sz @ (if length xs mod sz = 0 then [] else [length xs mod sz])"
proof (induction "length xs" arbitrary: xs rule: less_induct)
  case less
  show ?case
  proof (cases "xs = []")
    case True
    then show ?thesis by simp
  next
    case False
    note step = chunks_of_step [OF less.prems False]
    show ?thesis
    proof (cases "sz \<le> length xs")
      case True
      then have d: "length xs div sz = Suc ((length xs - sz) div sz)"
        and m: "length xs mod sz = (length xs - sz) mod sz"
        using less.prems by (simp_all add: le_div_geq le_mod_geq)
      have "length (drop sz xs) < length xs" using False less.prems by simp
      from less.hyps [OF this less.prems] True show ?thesis
        by (simp add: step d m min_def)
    next
      case False
      then show ?thesis using \<open>xs \<noteq> []\<close>
        by (simp add: step min_def)
    qed
  qed
qed

lemma concat_chunks_of: "0 < sz \<Longrightarrow> concat (chunks_of sz xs) = xs"
proof (induction "length xs" arbitrary: xs rule: less_induct)
  case less
  show ?case
  proof (cases "xs = []")
    case True
    then show ?thesis by simp
  next
    case False
    have "length (drop sz xs) < length xs" using False less.prems by simp
    from less.hyps [OF this less.prems] show ?thesis
      by (simp add: chunks_of_step [OF less.prems False])
  qed
qed

lemma replicate_num: "replicate (numeral k) x = x # replicate (pred_numeral k) x"
  by (simp add: numeral_eq_Suc)

lemma progressiveChunks_default: "progressiveChunks arr default_sizes = chunks_of 300 arr"
  by (simp add: default_sizes_def progressiveChunks_first_tier)

text \<open>
  The 1000 identifiers of the specification's example come out as it says, because 100
  is what fixed chunks of 300 leave over.
\<close>

lemma progressiveChunks_1000:
  "map length (progressiveChunks [1..<1001::nat] default_sizes) = [300, 300, 300, 100]"
  by (simp add: progressiveChunks_default chunks_of_lengths replicate_num)

lemma spec_tier_sizes_1000: "spec_tier_sizes 1000 default_sizes = [300, 300, 300, 100]"
  by (simp add: default_sizes_def replicate_num)

text \<open>
  C1. The claim: the split follows the schedule 300, 100, 50, 1, every tier consuming
  the whole chunks that fit before the next tier takes over, so that 307 identifiers end
  in chunks of size 1. The code does not do that: for 307 identifiers it emits a chunk of
  300 and one chunk of the 7 that are left, where the schedule of the claim gives 300
  followed by seven chunks of one.
\<close>

theorem C1_progressiveChunks_307:
  "map length (progressiveChunks [1..<308::nat] default_sizes) = [300, 7] \<and>
   spec_tier_sizes 307 default_sizes = [300, 1, 1, 1, 1, 1, 1, 1]"
proof
  show "map length (progressiveChunks [1..<308::nat] default_sizes) = [300, 7]"
    by (simp add: progressiveChunks_default chunks_of_lengths replicate_num)
  show "spec_tier_sizes 307 default_sizes = [300, 1, 1, 1, 1, 1, 1, 1]"
    by (simp add: default_sizes_def replicate_num)
qed

section \<open>Paginated retrieval\<close>



text \<open>
  From a point of the loop on every request fails: with identifiers in hand the loop
  gives them back, with none it throws, and the message it throws is that of the
  request on which the counter reached \<^verbatim>\<open>MAX_RETRIES\<close>.
\<close>

lemma fetch_loop_all_errors:
  assumes fail: "\<And>k cnt off. totalAttempts \<le> k \<Longrightarrow> transport k cnt off = Failure (msg k)"
    and ce: "consecutiveErrors < MAX_RETRIES cfg"
    and room: "below (length allContacts) maxCount"
  shows "fetch_loop cfg transport listId maxCount allContacts True offset consecutiveErrors totalAttempts =
     Some (if allContacts \<noteq> [] then Inr (uniq allContacts)
           else Inl (''Unable to fetch contacts from list '' @ listId @ '': '' @
                     msg (totalAttempts + (MAX_RETRIES cfg - consecutiveErrors - 1))))"
  using fail ce
proof (induction "MAX_RETRIES cfg - consecutiveErrors" arbitrary: consecutiveErrors totalAttempts)
  case 0
  then show ?case by simp
next
  case (Suc d)
  have here: "transport totalAttempts (countToFetch cfg maxCount (length allContacts)) offset = Failure (msg totalAttempts)"
    using Suc.prems(1) by simp
  show ?case
  proof (cases "MAX_RETRIES cfg \<le> consecutiveErrors + 1")
    case True
    then have "MAX_RETRIES cfg - consecutiveErrors - 1 = 0" by simp
    with True show ?thesis
      by (subst fetch_loop.simps) (simp add: room here Let_def)
  next
    case False
    then have lt: "consecutiveErrors + 1 < MAX_RETRIES cfg" by simp
    have d: "d = MAX_RETRIES cfg - (consecutiveErrors + 1)" using Suc.hyps(2) by simp
    have idx: "totalAttempts + 1 + (MAX_RETRIES cfg - (consecutiveErrors + 1) - 1)
               = totalAttempts + (MAX_RETRIES cfg - consecutiveErrors - 1)"
      using lt by simp
    have ih: "fetch_loop cfg transport listId maxCount allContacts True offset
                (consecutiveErrors + 1) (totalAttempts + 1) =
              Some (if allContacts \<noteq> [] then Inr (uniq allContacts)
                    else Inl (''Unable to fetch contacts from list '' @ listId @ '': '' @
                       msg (totalAttempts + 1 + (MAX_RETRIES cfg - (consecutiveErrors + 1) - 1))))"
    proof (rule Suc.hyps(1) [OF d _ lt])
      fix k cnt off
      assume "totalAttempts + 1 \<le> k"
      then show "transport k cnt off = Failure (msg k)" using Suc.prems(1) by simp
    qed
    show ?thesis
      using False
      by (subst fetch_loop.simps) (simp only: room here Let_def ih idx response.case if_True if_False simp_thms)
  qed
qed










lemma getContactsFromList_exhausted:
  assumes "\<And>k cnt off. transport k cnt off = Failure (msg k)"
    and "0 < MAX_RETRIES cfg" and "below 0 maxCount"
  shows "getContactsFromList cfg transport listId maxCount =
         Some (Inl (''Unable to fetch contacts from list '' @ listId @ '': '' @ msg (MAX_RETRIES cfg - 1)))"
  using fetch_loop_all_errors [of 0 transport msg 0 cfg "[]" maxCount listId 0] assms
  by (simp add: getContactsFromList_def)

text \<open>
  The second definition never throws: whatever it returns is an array.
\<close>

lemma fetch_loop_copy2_no_throw:
  "fetch_loop_copy2 cfg transport maxCount allContacts hasMore offset retryCount requests = Some r \<Longrightarrow>
   (\<exists>ys. r = Inr ys)"
proof (induction rule: fetch_loop_copy2.raw_induct[rotated 1, consumes 1])
  case (1 loop cfg transport maxCount allContacts hasMore offset retryCount requests r)
  from 1(2) show ?case
    by (auto simp: Let_def split: if_splits response.splits dest: 1(1))
qed

lemma fetch_loop_copy2_all_errors:
  assumes fail: "\<And>k cnt off. requests \<le> k \<Longrightarrow> transport k cnt off = Failure (msg k)"
  shows "fetch_loop_copy2 cfg transport maxCount allContacts hasMore offset retryCount requests =
         Some (Inr (uniq allContacts))"
  using fail
proof (induction "MAX_RETRIES cfg - retryCount" arbitrary: retryCount requests hasMore)
  case 0
  then show ?case by (subst fetch_loop_copy2.simps) simp
next
  case (Suc d)
  have here: "\<And>cnt. transport requests cnt offset = Failure (msg requests)"
    using Suc.prems by simp
  have stop: "fetch_loop_copy2 cfg transport maxCount allContacts False offset (retryCount + 1) (requests + 1)
              = Some (Inr (uniq allContacts))"
    by (subst fetch_loop_copy2.simps) simp
  show ?case
  proof (cases "retryCount + 1 < MAX_RETRIES cfg")
    case True
    have d: "d = MAX_RETRIES cfg - (retryCount + 1)" using Suc.hyps(2) by simp
    have ih: "fetch_loop_copy2 cfg transport maxCount allContacts hasMore offset (retryCount + 1) (requests + 1)
              = Some (Inr (uniq allContacts))"
    proof (rule Suc.hyps(1) [OF d])
      fix k cnt off
      assume "requests + 1 \<le> k"
      then show "transport k cnt off = Failure (msg k)" using Suc.prems by simp
    qed
    show ?thesis
      using True
      by (subst fetch_loop_copy2.simps) (simp only: here Let_def ih response.case if_True if_False simp_thms split: if_splits)
  next
    case False
    show ?thesis
      using False
      by (subst fetch_loop_copy2.simps) (simp only: here Let_def stop response.case if_True if_False simp_thms split: if_splits)
  qed
qed

text \<open>
  C2. The claim: when every page request fails, the retrieval returns what it has if it
  has at least one identifier when the counter reaches the retry limit, and fails with
  an error carrying the last error's description if it has none. The first definition
  (lines 75 to 144) does both, as \<open>fetch_loop_all_errors\<close> shows. The second definition
  (lines 839 to 875) never throws: with every request failing and nothing collected it
  returns the empty array, where the first throws.
\<close>

theorem C2_copy2_returns_empty:
  "getContactsFromList_copy2 default_config
     ((\<lambda>k cnt off. Failure ''ECONNRESET'') :: nat transport) (Some 500) = Some (Inr []) \<and>
   getContactsFromList default_config
     ((\<lambda>k cnt off. Failure ''ECONNRESET'') :: nat transport) ''42'' (Some 500) =
     Some (Inl ''Unable to fetch contacts from list 42: ECONNRESET'')"
proof
  show "getContactsFromList_copy2 default_config
     ((\<lambda>k cnt off. Failure ''ECONNRESET'') :: nat transport) (Some 500) = Some (Inr [])"
    using fetch_loop_copy2_all_errors [of 0 "\<lambda>k cnt off. Failure ''ECONNRESET''" "\<lambda>k. ''ECONNRESET''"
        default_config "Some 500" "[]::nat list" True 0 0]
    by (simp add: getContactsFromList_copy2_def)
  show "getContactsFromList default_config
     ((\<lambda>k cnt off. Failure ''ECONNRESET'') :: nat transport) ''42'' (Some 500) =
     Some (Inl ''Unable to fetch contacts from list 42: ECONNRESET'')"
    using getContactsFromList_exhausted [of "\<lambda>k cnt off. Failure ''ECONNRESET''" "\<lambda>k. ''ECONNRESET''"
        default_config "Some 500" "''42''"]
    by (simp add: default_config_def below_def)
qed




section \<open>Chunked upload\<close>

declare upload_retry.simps [simp del]

lemma upload_retry_stop:
  "\<not> (retries < MAX_RETRIES cfg \<and> \<not> success) \<Longrightarrow> upload_retry cfg post chunk retries success st = st"
  by (subst upload_retry.simps) auto

text \<open>
  The loop for one chunk ends in one of two ways: the chunk has been posted and counted,
  or it has been rejected until the retries ran out and stands in \<^verbatim>\<open>failedChunks\<close>; and
  a chunk that stands there was rejected by the remote side.
\<close>

lemma upload_retry_outcome:
  "retries < MAX_RETRIES cfg \<Longrightarrow>
   (successCount (upload_retry cfg post chunk retries False st) = successCount st + length chunk \<and>
    failedChunks (upload_retry cfg post chunk retries False st) = failedChunks st \<and>
    (\<exists>k. post k chunk = Posted)) \<or>
   (successCount (upload_retry cfg post chunk retries False st) = successCount st \<and>
    failedChunks (upload_retry cfg post chunk retries False st) = failedChunks st @ [chunk] \<and>
    (\<exists>k m. post k chunk = Rejected m))"
proof (induction "MAX_RETRIES cfg - retries" arbitrary: retries st)
  case 0
  then show ?case by simp
next
  case (Suc d)
  show ?case
  proof (cases "post (posts st) chunk")
    case Posted
    then show ?thesis
      using Suc.prems
      by (subst (1 2) upload_retry.simps) (auto simp: upload_retry_stop)
  next
    case (Rejected m)
    show ?thesis
    proof (cases "retries + 1 < MAX_RETRIES cfg")
      case True
      have d: "d = MAX_RETRIES cfg - (retries + 1)" using Suc.hyps(2) by simp
      have step: "upload_retry cfg post chunk retries False st =
                  upload_retry cfg post chunk (retries + 1) False (st\<lparr>posts := posts st + 1\<rparr>)"
        using Suc.prems True Rejected by (subst upload_retry.simps) (simp add: Let_def)
      from Suc.hyps(1) [OF d True, of "st\<lparr>posts := posts st + 1\<rparr>"]
      show ?thesis unfolding step by simp
    next
      case False
      have step: "upload_retry cfg post chunk retries False st =
                  st\<lparr>posts := posts st + 1, failedChunks := failedChunks st @ [chunk]\<rparr>"
        using Suc.prems False Rejected
        by (subst upload_retry.simps) (simp add: Let_def upload_retry_stop)
      show ?thesis unfolding step using Rejected by auto
    qed
  qed
qed

text \<open>
  A chunk that the remote side rejects every time ends in \<^verbatim>\<open>failedChunks\<close>.
\<close>

lemma upload_retry_rejected:
  assumes "\<forall>k. \<exists>m. post k chunk = Rejected m" and "retries < MAX_RETRIES cfg"
  shows "failedChunks (upload_retry cfg post chunk retries False st) = failedChunks st @ [chunk] \<and>
         successCount (upload_retry cfg post chunk retries False st) = successCount st"
proof -
  have "\<not> (\<exists>k. post k chunk = Posted)"
  proof
    assume "\<exists>k. post k chunk = Posted"
    then obtain k where "post k chunk = Posted" ..
    moreover obtain m where "post k chunk = Rejected m" using assms(1) by blast
    ultimately show False by simp
  qed
  with upload_retry_outcome [OF assms(2), of post chunk st] show ?thesis by blast
qed

text \<open>
  The loop over the chunks goes through all of them, whatever happens to each: every
  identifier is counted as uploaded or stands in a failed chunk, and the failed chunks
  are chunks of the input that the remote side rejected.
\<close>

lemma upload_chunks_all:
  "0 < MAX_RETRIES cfg \<Longrightarrow>
   \<exists>fs. failedChunks (upload_chunks cfg post chunks st) = failedChunks st @ fs \<and>
        set fs \<subseteq> {c \<in> set chunks. \<exists>k m. post k c = Rejected m} \<and>
        successCount (upload_chunks cfg post chunks st) + sum_list (map length fs)
          = successCount st + sum_list (map length chunks)"
proof (induction chunks arbitrary: st)
  case Nil
  show ?case by simp
next
  case (Cons c chunks)
  let ?st = "upload_retry cfg post c 0 False st"
  from Cons.IH [OF Cons.prems, of ?st] obtain fs where
    fs: "failedChunks (upload_chunks cfg post chunks ?st) = failedChunks ?st @ fs"
        "set fs \<subseteq> {c \<in> set chunks. \<exists>k m. post k c = Rejected m}"
        "successCount (upload_chunks cfg post chunks ?st) + sum_list (map length fs)
           = successCount ?st + sum_list (map length chunks)"
    by blast
  from upload_retry_outcome [OF Cons.prems, of post c st]
  show ?case
  proof
    assume "successCount ?st = successCount st + length c \<and> failedChunks ?st = failedChunks st \<and>
            (\<exists>k. post k c = Posted)"
    with fs show ?thesis by (intro exI [of _ fs]) auto
  next
    assume "successCount ?st = successCount st \<and> failedChunks ?st = failedChunks st @ [c] \<and>
            (\<exists>k m. post k c = Rejected m)"
    with fs show ?thesis by (intro exI [of _ "c # fs"]) auto
  qed
qed

lemma upload_chunks_rejected:
  assumes "0 < MAX_RETRIES cfg" and "c \<in> set chunks" and "\<forall>k. \<exists>m. post k c = Rejected m"
  shows "c \<in> set (failedChunks (upload_chunks cfg post chunks st))"
  using assms(2)
proof (induction chunks arbitrary: st)
  case Nil
  then show ?case by simp
next
  case (Cons a chunks)
  have keep: "set (failedChunks s) \<subseteq> set (failedChunks (upload_chunks cfg post chunks s))" for s
    using upload_chunks_all [OF assms(1), of post chunks s] by auto
  show ?case
  proof (cases "a = c")
    case True
    have "c \<in> set (failedChunks (upload_retry cfg post c 0 False st))"
      using upload_retry_rejected [of post c 0 cfg st] assms(1,3) by simp
    with keep True show ?thesis by auto
  next
    case False
    with Cons show ?thesis by simp
  qed
qed

text \<open>
  The upload of lines 161 to 211 never raises: it returns its counters, in which every
  identifier is accounted for; an empty input makes no request; and a chunk rejected on
  every attempt is reported in \<^verbatim>\<open>failedChunks\<close> while the rest of the batch is still
  uploaded.
\<close>

lemma addContactsToList_never_raises:
  "\<exists>st. addContactsToList cfg post contacts = Inr st"
  by (simp add: addContactsToList_def)

lemma addContactsToList_empty:
  "addContactsToList cfg post [] = Inr \<lparr>posts = 0, successCount = 0, failedChunks = []\<rparr>"
  by (simp add: addContactsToList_def)

lemma addContactsToList_accounts:
  assumes "0 < MAX_RETRIES cfg" and "addContactsToList cfg post contacts = Inr st"
  shows "successCount st + sum_list (map length (failedChunks st)) = length contacts"
proof (cases "contacts = []")
  case True
  with assms(2) show ?thesis by (auto simp: addContactsToList_def)
next
  case False
  let ?chunks = "progressiveChunks contacts default_sizes"
  let ?init = "\<lparr>posts = 0, successCount = 0, failedChunks = []\<rparr> :: 'a upload"
  have st: "st = upload_chunks cfg post ?chunks ?init"
    using assms(2) False by (simp add: addContactsToList_def)
  have "sum_list (map length ?chunks) = length (concat ?chunks)"
    by (simp add: length_concat)
  also have "\<dots> = length contacts"
    by (simp add: progressiveChunks_default concat_chunks_of)
  finally have total: "sum_list (map length ?chunks) = length contacts" .
  from upload_chunks_all [OF assms(1), of post ?chunks ?init] total
  show ?thesis unfolding st by auto
qed

lemma addContactsToList_reports:
  assumes "0 < MAX_RETRIES cfg" and "addContactsToList cfg post contacts = Inr st"
    and "c \<in> set (progressiveChunks contacts default_sizes)" and "\<forall>k. \<exists>m. post k c = Rejected m"
  shows "c \<in> set (failedChunks st)"
proof -
  have "contacts \<noteq> []"
    using assms(3) by (auto simp: progressiveChunks_default)
  then have "st = upload_chunks cfg post (progressiveChunks contacts default_sizes)
                    \<lparr>posts = 0, successCount = 0, failedChunks = []\<rparr>"
    using assms(2) by (simp add: addContactsToList_def)
  with upload_chunks_rejected [of cfg c "progressiveChunks contacts default_sizes" post] assms(1,3,4)
  show ?thesis by simp
qed

text \<open>
  C4. The claim: the chunked upload returns without raising whatever the transport does;
  a chunk that exhausts its retries is recorded as failed and the loop goes on. The
  definition at lines 161 to 211 does so (the lemmas above). The second definition, at
  lines 892 to 908, rethrows the first error: for a chunk that the remote side rejects
  it raises, where the first definition reports the chunk after three attempts.
\<close>

theorem C4_copy2_raises:
  "addContactsToList_copy2 (\<lambda>k chunk. Rejected ''timeout'') [1, 2 :: nat] = Inl ''timeout'' \<and>
   addContactsToList default_config (\<lambda>k chunk. Rejected ''timeout'') [1, 2 :: nat]
     = Inr \<lparr>posts = 3, successCount = 0, failedChunks = [[1, 2]]\<rparr>"
  by (simp add: addContactsToList_copy2_def addContactsToList_def progressiveChunks_default
      chunks_of_step default_config_def upload_retry.simps Let_def)

section \<open>Campaign allocation: the set of used identifiers\<close>

lemma set_slice0: "set (slice0 xs c) \<subseteq> set xs"
  by (auto simp: slice0_def dest: in_set_takeD)

lemma length_slice0: "0 \<le> c \<Longrightarrow> int (length (slice0 xs c)) \<le> c"
  by (simp add: slice0_def)

text \<open>Both pools hold identifiers that are not in the set of used ones.\<close>

lemma fetch_pools_unused:
  "set (primaryContacts (fetch_pools fetch config used)) \<inter> used = {} \<and>
   set (secondaryContacts (fetch_pools fetch config used)) \<inter> used = {}"
  by (auto simp: fetch_pools_def Let_def split: sum.splits option.splits)

lemma fetch_pools_copy2_unused:
  "fetch_pools_copy2 fetch config used = Inr p \<Longrightarrow>
   set (primaryContacts p) \<inter> used = {} \<and> set (secondaryContacts p) \<inter> used = {}"
  by (auto simp: fetch_pools_copy2_def Let_def split: sum.splits option.splits if_splits)

lemma allocate_unused: "set (selectedContacts (allocate fetch config used)) \<inter> used = {}"
  using fetch_pools_unused [of fetch config used]
    set_slice0 [of "primaryContacts (fetch_pools fetch config used) @
                    secondaryContacts (fetch_pools fetch config used)" "count config"]
  by (auto simp: allocate_def Let_def)

lemma allocate_copy2_unused:
  assumes "allocate_copy2 fetch config used = Inr a"
  shows "set (selectedContacts a) \<inter> used = {}"
proof -
  from assms obtain p where p: "fetch_pools_copy2 fetch config used = Inr p"
    and a: "selectedContacts a = slice0 (primaryContacts p @ secondaryContacts p) (count config)"
    by (auto simp: allocate_copy2_def Let_def split: sum.splits)
  from fetch_pools_copy2_unused [OF p] set_slice0 [of "primaryContacts p @ secondaryContacts p" "count config"]
  show ?thesis unfolding a by auto
qed

text \<open>
  One call: the set only grows; a call that returns has put its whole selection into
  the set, and nothing of the selection was in the set before.
\<close>

lemma processSingleCampaign_step:
  assumes "processSingleCampaign fetch reject config used = (r, used')"
  shows "used' = used \<union> set (selectedContacts (allocate fetch config used))"
    and "r = Inr a \<Longrightarrow> a = allocate fetch config used"
  using assms by (auto simp: processSingleCampaign_def Let_def split: option.splits)

lemma processSingleCampaign_copy2_step:
  assumes "processSingleCampaign_copy2 fetch reject config used = (r, used')"
  shows "used \<subseteq> used'"
    and "r = Inr a \<Longrightarrow> set (selectedContacts a) \<subseteq> used' \<and> set (selectedContacts a) \<inter> used = {}"
proof -
  show "used \<subseteq> used'"
    using assms by (auto simp: processSingleCampaign_copy2_def Let_def split: sum.splits option.splits)
  assume r: "r = Inr a"
  with assms have a: "allocate_copy2 fetch config used = Inr a"
    and u: "used' = used \<union> set (selectedContacts a)"
    by (auto simp: processSingleCampaign_copy2_def Let_def split: sum.splits option.splits)
  from allocate_copy2_unused [OF a] u
  show "set (selectedContacts a) \<subseteq> used' \<and> set (selectedContacts a) \<inter> used = {}" by auto
qed

lemma single_call:
  assumes "single = processSingleCampaign \<or> single = processSingleCampaign_copy2"
    and "single fetch reject config used = (r, used')"
  shows "used \<subseteq> used' \<and>
         (\<forall>a. r = Inr a \<longrightarrow> set (selectedContacts a) \<subseteq> used' \<and> set (selectedContacts a) \<inter> used = {})"
  using assms(1)
proof
  assume s: "single = processSingleCampaign"
  from processSingleCampaign_step [OF assms(2) [unfolded s]] allocate_unused [of fetch config used]
  show ?thesis by auto
next
  assume s: "single = processSingleCampaign_copy2"
  from processSingleCampaign_copy2_step [OF assms(2) [unfolded s]]
  show ?thesis by auto
qed

text \<open>
  The run: while the loop goes through the campaigns, every selection returned so far
  lies in the set, and no two of them share an identifier.
\<close>

lemma campaigns_loop_disjoint:
  assumes "single = processSingleCampaign \<or> single = processSingleCampaign_copy2"
    and "\<forall>a. Inr a \<in> set results \<longrightarrow> set (selectedContacts a) \<subseteq> used"
    and "\<forall>i j a b. i < j \<and> j < length results \<and> results ! i = Inr a \<and> results ! j = Inr b \<longrightarrow>
           set (selectedContacts a) \<inter> set (selectedContacts b) = {}"
    and "i < j" and "j < length (campaigns_loop single fetch reject listConfigs index used results)"
    and "campaigns_loop single fetch reject listConfigs index used results ! i = Inr a"
    and "campaigns_loop single fetch reject listConfigs index used results ! j = Inr b"
  shows "set (selectedContacts a) \<inter> set (selectedContacts b) = {}"
  using assms(2-)
proof (induction listConfigs arbitrary: index used results)
  case Nil
  then show ?case by simp
next
  case (Cons config listConfigs)
  obtain r used' where call: "single (fetch index) (reject index) config used = (r, used')"
    by (cases "single (fetch index) (reject index) config used")
  note step = single_call [OF assms(1) call]
  have inside: "\<forall>a. Inr a \<in> set (results @ [r]) \<longrightarrow> set (selectedContacts a) \<subseteq> used'"
    using Cons.prems(1) step by auto
  have apart: "\<forall>i j a b. i < j \<and> j < length (results @ [r]) \<and>
                 (results @ [r]) ! i = Inr a \<and> (results @ [r]) ! j = Inr b \<longrightarrow>
                 set (selectedContacts a) \<inter> set (selectedContacts b) = {}"
  proof (intro allI impI, elim conjE)
    fix i j a b
    assume ij: "i < j" "j < length (results @ [r])"
      and a: "(results @ [r]) ! i = Inr a" and b: "(results @ [r]) ! j = Inr b"
    show "set (selectedContacts a) \<inter> set (selectedContacts b) = {}"
    proof (cases "j < length results")
      case True
      with ij a b Cons.prems(2) show ?thesis by (simp add: nth_append)
    next
      case False
      with ij have j: "j = length results" by simp
      with b have rb: "r = Inr b" by simp
      from ij j a have "results ! i = Inr a" "i < length results" by (simp_all add: nth_append)
      then have "Inr a \<in> set results" by (metis nth_mem)
      with Cons.prems(1) have "set (selectedContacts a) \<subseteq> used" by blast
      moreover from step rb have "set (selectedContacts b) \<inter> used = {}" by blast
      ultimately show ?thesis by blast
    qed
  qed
  show ?case
    using Cons.IH [OF inside apart Cons.prems(3)] Cons.prems(4,5,6) call
    by simp
qed

text \<open>
  What one call does to the set, for each definition of \<^verbatim>\<open>processSingleCampaign\<close>: the
  selection is put into the set before the remote list is created and the audit record
  written, so a call that one of these rejects has extended the set all the same.
\<close>

lemma processSingleCampaign_call:
  "snd (processSingleCampaign fetch reject config used)
     = used \<union> set (selectedContacts (allocate fetch config used))"
  "fst (processSingleCampaign fetch reject config used)
     = (case reject of Some message \<Rightarrow> Inl message | None \<Rightarrow> Inr (allocate fetch config used))"
  by (simp_all add: processSingleCampaign_def Let_def split: option.splits)

lemma selectedContacts_copy2_unused: "set (selectedContacts_copy2 fetch config used) \<inter> used = {}"
proof (cases "allocate_copy2 fetch config used")
  case (Inl message)
  then show ?thesis by (simp add: selectedContacts_copy2_def)
next
  case (Inr a)
  with allocate_copy2_unused [OF Inr] show ?thesis by (simp add: selectedContacts_copy2_def)
qed

lemma processSingleCampaign_copy2_call:
  "snd (processSingleCampaign_copy2 fetch reject config used)
     = used \<union> set (selectedContacts_copy2 fetch config used)"
  "fst (processSingleCampaign_copy2 fetch reject config used) = Inr a \<Longrightarrow>
     allocate_copy2 fetch config used = Inr a \<and> reject = None"
  by (auto simp: processSingleCampaign_copy2_def selectedContacts_copy2_def Let_def
      split: sum.splits option.splits)

text \<open>
  The run, turn by turn: the result of turn \<open>i\<close> is that of the call made with the set as
  it is at the start of the turn.
\<close>

lemma campaigns_loop_length:
  "length (campaigns_loop single fetch reject listConfigs index used results)
     = length results + length listConfigs"
  by (induction listConfigs arbitrary: index used results) (simp_all add: split_beta)

lemma campaigns_loop_keep:
  "i < length results \<Longrightarrow>
   campaigns_loop single fetch reject listConfigs index used results ! i = results ! i"
  by (induction listConfigs arbitrary: index used results) (simp_all add: split_beta nth_append)

lemma campaigns_loop_turn:
  assumes "index + i < length listConfigs"
  shows "campaigns_loop single fetch reject (drop index listConfigs) index
           (usedContacts_before single fetch reject listConfigs index) results ! (length results + i)
         = fst (single (fetch (index + i)) (reject (index + i)) (listConfigs ! (index + i))
                  (usedContacts_before single fetch reject listConfigs (index + i)))"
  using assms
proof (induction i arbitrary: index results)
  case 0
  then have d: "drop index listConfigs = listConfigs ! index # drop (Suc index) listConfigs"
    by (simp add: Cons_nth_drop_Suc)
  show ?case
    unfolding d by (simp add: split_beta campaigns_loop_keep)
next
  case (Suc i)
  then have lt: "index < length listConfigs" by simp
  then have d: "drop index listConfigs = listConfigs ! index # drop (Suc index) listConfigs"
    by (simp add: Cons_nth_drop_Suc)
  let ?call = "single (fetch index) (reject index) (listConfigs ! index)
                 (usedContacts_before single fetch reject listConfigs index)"
  have "Suc index + i < length listConfigs" using Suc.prems by simp
  from Suc.IH [OF this, of "results @ [fst ?call]"]
  show ?case unfolding d by (simp add: split_beta)
qed

lemma processCampaignsWithDelay_turn:
  assumes "i < length listConfigs"
  shows "processCampaignsWithDelay single fetch reject listConfigs ! i
         = fst (single (fetch i) (reject i) (listConfigs ! i)
                  (usedContacts_before single fetch reject listConfigs i))"
  using campaigns_loop_turn [of 0 i listConfigs single fetch reject "[]"] assms
  by (simp add: processCampaignsWithDelay_def)

text \<open>The set of a run only grows, with either definition.\<close>

lemma usedContacts_before_mono:
  assumes "single = processSingleCampaign \<or> single = processSingleCampaign_copy2"
    and "i \<le> j"
  shows "usedContacts_before single fetch reject listConfigs i
         \<subseteq> usedContacts_before single fetch reject listConfigs j"
  using assms(2)
proof (induction j)
  case 0
  then show ?case by simp
next
  case (Suc j)
  show ?case
  proof (cases "i = Suc j")
    case True
    then show ?thesis by simp
  next
    case False
    with Suc.prems have "i \<le> j" by simp
    from Suc.IH [OF this] assms(1) show ?thesis
      by (auto simp: processSingleCampaign_call(1) processSingleCampaign_copy2_call(1))
  qed
qed

text \<open>
  C3. For every run sharing one set of used identifiers, with either definition of
  \<^verbatim>\<open>processSingleCampaign\<close>. One call: the set after the call is the set before it
  together with every identifier the call selected, whether the call then returns or is
  rejected by a step that follows the selection; the selection holds nothing that was in
  the set before the call, the identifiers fetched having been filtered against the set;
  the selection a call returns is the one it inserted. Two calls in sequence on the same
  set: the second selects nothing the first selected, returned or not. A run of
  \<^verbatim>\<open>processCampaignsWithDelay\<close>: the result of each turn is that of the call made with the
  set as the turns before left it, the set never shrinks, no two turns select a common
  identifier, and no two selections returned overlap.
\<close>

theorem C3_no_overlap:
  "(snd (processSingleCampaign fetch reject config used)
      = used \<union> set (selectedContacts (allocate fetch config used)) \<and>
    fst (processSingleCampaign fetch reject config used)
      = (case reject of Some message \<Rightarrow> Inl message | None \<Rightarrow> Inr (allocate fetch config used)) \<and>
    set (selectedContacts (allocate fetch config used)) \<inter> used = {} \<and>
    set (selectedContacts (allocate fetch2 config2 (snd (processSingleCampaign fetch reject config used))))
      \<inter> set (selectedContacts (allocate fetch config used)) = {}) \<and>
   (snd (processSingleCampaign_copy2 fetch reject config used)
      = used \<union> set (selectedContacts_copy2 fetch config used) \<and>
    (\<forall>a. fst (processSingleCampaign_copy2 fetch reject config used) = Inr a \<longrightarrow>
       selectedContacts a = selectedContacts_copy2 fetch config used) \<and>
    set (selectedContacts_copy2 fetch config used) \<inter> used = {} \<and>
    set (selectedContacts_copy2 fetch2 config2 (snd (processSingleCampaign_copy2 fetch reject config used)))
      \<inter> set (selectedContacts_copy2 fetch config used) = {}) \<and>
   (single = processSingleCampaign \<or> single = processSingleCampaign_copy2 \<longrightarrow>
      (single fetch reject config used = (r, used') \<longrightarrow>
         used \<subseteq> used' \<and>
         (\<forall>a. r = Inr a \<longrightarrow> set (selectedContacts a) \<subseteq> used' \<and> set (selectedContacts a) \<inter> used = {})) \<and>
      (single fetch1 reject1 config1 used = (Inr a1, used1) \<and>
       single fetch2 reject2 config2 used1 = (Inr a2, used2) \<longrightarrow>
         set (selectedContacts a1) \<inter> set (selectedContacts a2) = {}) \<and>
      length (processCampaignsWithDelay single fetches rejects listConfigs) = length listConfigs \<and>
      (\<forall>i. i < length listConfigs \<longrightarrow>
         processCampaignsWithDelay single fetches rejects listConfigs ! i
           = fst (single (fetches i) (rejects i) (listConfigs ! i)
                    (usedContacts_before single fetches rejects listConfigs i))) \<and>
      (\<forall>i j. i \<le> j \<longrightarrow>
         usedContacts_before single fetches rejects listConfigs i
           \<subseteq> usedContacts_before single fetches rejects listConfigs j) \<and>
      (\<forall>i j a b. i < j \<and> j < length (processCampaignsWithDelay single fetches rejects listConfigs) \<and>
         processCampaignsWithDelay single fetches rejects listConfigs ! i = Inr a \<and>
         processCampaignsWithDelay single fetches rejects listConfigs ! j = Inr b \<longrightarrow>
         set (selectedContacts a) \<inter> set (selectedContacts b) = {})) \<and>
   (\<forall>i j. i < j \<longrightarrow>
      set (selectedContacts (allocate (fetches i) (listConfigs ! i)
             (usedContacts_before processSingleCampaign fetches rejects listConfigs i))) \<inter>
      set (selectedContacts (allocate (fetches j) (listConfigs ! j)
             (usedContacts_before processSingleCampaign fetches rejects listConfigs j))) = {}) \<and>
   (\<forall>i j. i < j \<longrightarrow>
      set (selectedContacts_copy2 (fetches i) (listConfigs ! i)
             (usedContacts_before processSingleCampaign_copy2 fetches rejects listConfigs i)) \<inter>
      set (selectedContacts_copy2 (fetches j) (listConfigs ! j)
             (usedContacts_before processSingleCampaign_copy2 fetches rejects listConfigs j)) = {})"
proof (intro conjI impI allI)
  show "snd (processSingleCampaign fetch reject config used)
      = used \<union> set (selectedContacts (allocate fetch config used))"
    by (rule processSingleCampaign_call)
  show "fst (processSingleCampaign fetch reject config used)
      = (case reject of Some message \<Rightarrow> Inl message | None \<Rightarrow> Inr (allocate fetch config used))"
    by (rule processSingleCampaign_call)
  show "set (selectedContacts (allocate fetch config used)) \<inter> used = {}"
    by (rule allocate_unused)
  show "set (selectedContacts (allocate fetch2 config2 (snd (processSingleCampaign fetch reject config used))))
      \<inter> set (selectedContacts (allocate fetch config used)) = {}"
    using allocate_unused [of fetch2 config2 "snd (processSingleCampaign fetch reject config used)"]
    by (auto simp: processSingleCampaign_call(1))
  show "snd (processSingleCampaign_copy2 fetch reject config used)
      = used \<union> set (selectedContacts_copy2 fetch config used)"
    by (rule processSingleCampaign_copy2_call)
  show "set (selectedContacts_copy2 fetch config used) \<inter> used = {}"
    by (rule selectedContacts_copy2_unused)
  show "set (selectedContacts_copy2 fetch2 config2 (snd (processSingleCampaign_copy2 fetch reject config used)))
      \<inter> set (selectedContacts_copy2 fetch config used) = {}"
    using selectedContacts_copy2_unused [of fetch2 config2 "snd (processSingleCampaign_copy2 fetch reject config used)"]
    by (auto simp: processSingleCampaign_copy2_call(1))
next
  fix a
  assume "fst (processSingleCampaign_copy2 fetch reject config used) = Inr a"
  from processSingleCampaign_copy2_call(2) [OF this]
  show "selectedContacts a = selectedContacts_copy2 fetch config used"
    by (simp add: selectedContacts_copy2_def)
next
  fix i j :: nat
  assume ij: "i < j"
  let ?u = "usedContacts_before processSingleCampaign fetches rejects listConfigs"
  have "?u (Suc i) \<subseteq> ?u j"
    using ij by (intro usedContacts_before_mono) simp_all
  then have "set (selectedContacts (allocate (fetches i) (listConfigs ! i) (?u i))) \<subseteq> ?u j"
    by (auto simp: processSingleCampaign_call(1))
  with allocate_unused [of "fetches j" "listConfigs ! j" "?u j"]
  show "set (selectedContacts (allocate (fetches i) (listConfigs ! i) (?u i))) \<inter>
        set (selectedContacts (allocate (fetches j) (listConfigs ! j) (?u j))) = {}"
    by blast
next
  fix i j :: nat
  assume ij: "i < j"
  let ?u = "usedContacts_before processSingleCampaign_copy2 fetches rejects listConfigs"
  have "?u (Suc i) \<subseteq> ?u j"
    using ij by (intro usedContacts_before_mono) simp_all
  then have "set (selectedContacts_copy2 (fetches i) (listConfigs ! i) (?u i)) \<subseteq> ?u j"
    by (auto simp: processSingleCampaign_copy2_call(1))
  with selectedContacts_copy2_unused [of "fetches j" "listConfigs ! j" "?u j"]
  show "set (selectedContacts_copy2 (fetches i) (listConfigs ! i) (?u i)) \<inter>
        set (selectedContacts_copy2 (fetches j) (listConfigs ! j) (?u j)) = {}"
    by blast
next
  assume s: "single = processSingleCampaign \<or> single = processSingleCampaign_copy2"
  show "length (processCampaignsWithDelay single fetches rejects listConfigs) = length listConfigs"
    by (simp add: processCampaignsWithDelay_def campaigns_loop_length)
  {
    assume "single fetch reject config used = (r, used')"
    from single_call [OF s this]
    show "used \<subseteq> used'" by simp
  next
    fix a
    assume "single fetch reject config used = (r, used')" and "r = Inr a"
    with single_call [OF s] show "set (selectedContacts a) \<subseteq> used'" by blast
  next
    fix a
    assume "single fetch reject config used = (r, used')" and "r = Inr a"
    with single_call [OF s] show "set (selectedContacts a) \<inter> used = {}" by blast
  next
    assume two: "single fetch1 reject1 config1 used = (Inr a1, used1) \<and>
                 single fetch2 reject2 config2 used1 = (Inr a2, used2)"
    from single_call [OF s conjunct1 [OF two]] have "set (selectedContacts a1) \<subseteq> used1" by blast
    moreover from single_call [OF s conjunct2 [OF two]] have "set (selectedContacts a2) \<inter> used1 = {}"
      by blast
    ultimately show "set (selectedContacts a1) \<inter> set (selectedContacts a2) = {}" by blast
  next
    fix i
    assume "i < length listConfigs"
    then show "processCampaignsWithDelay single fetches rejects listConfigs ! i
           = fst (single (fetches i) (rejects i) (listConfigs ! i)
                    (usedContacts_before single fetches rejects listConfigs i))"
      by (rule processCampaignsWithDelay_turn)
  next
    fix i j :: nat
    assume "i \<le> j"
    with s show "usedContacts_before single fetches rejects listConfigs i
           \<subseteq> usedContacts_before single fetches rejects listConfigs j"
      by (rule usedContacts_before_mono)
  next
    fix i j a b
    assume "i < j \<and> j < length (processCampaignsWithDelay single fetches rejects listConfigs) \<and>
       processCampaignsWithDelay single fetches rejects listConfigs ! i = Inr a \<and>
       processCampaignsWithDelay single fetches rejects listConfigs ! j = Inr b"
    then show "set (selectedContacts a) \<inter> set (selectedContacts b) = {}"
      unfolding processCampaignsWithDelay_def
      using campaigns_loop_disjoint [OF s, of "[]" "{}" i j fetches rejects listConfigs 0 a b]
      by simp
  }
qed

theorem C3_no_overlap_witness:
  "map (map_sum id selectedContacts)
     (processCampaignsWithDelay processSingleCampaign
        (\<lambda>i listId maxCount. Inr [10, 20, 30, 40, 50 :: nat])
        (\<lambda>i. if i = 0 then Some ''db down'' else None)
        [\<lparr>primaryListId = ''7'', secondaryListId = None, count = 2, sendContactListId = None\<rparr>,
         \<lparr>primaryListId = ''7'', secondaryListId = None, count = 2, sendContactListId = None\<rparr>])
   = [Inl ''db down'', Inr [30, 40]] \<and>
   map (map_sum id selectedContacts)
     (processCampaignsWithDelay processSingleCampaign
        (\<lambda>i listId maxCount. Inr [10, 20, 30, 40, 50 :: nat]) (\<lambda>i. None)
        [\<lparr>primaryListId = ''7'', secondaryListId = None, count = 2, sendContactListId = None\<rparr>,
         \<lparr>primaryListId = ''7'', secondaryListId = None, count = 2, sendContactListId = None\<rparr>])
   = [Inr [10, 20], Inr [30, 40]] \<and>
   snd (processSingleCampaign (\<lambda>listId maxCount. Inr [10, 20, 30, 40, 50 :: nat]) (Some ''db down'')
          \<lparr>primaryListId = ''7'', secondaryListId = None, count = 2, sendContactListId = None\<rparr> {})
   = {10, 20} \<and>
   set [10, 20 :: nat] \<inter> set [30, 40] = {}"
proof -
  let ?c = "\<lparr>primaryListId = ''7'', secondaryListId = None, count = 2, sendContactListId = None\<rparr>"
  let ?f = "\<lambda>listId maxCount. Inr [10, 20, 30, 40, 50 :: nat] :: string + nat list"
  let ?down = "\<lambda>i :: nat. if i = 0 then Some ''db down'' else None"
  have sel: "selectedContacts (allocate ?f ?c {}) = [10, 20]"
    "selectedContacts (allocate ?f ?c {10, 20}) = [30, 40]"
    by (simp_all add: allocate_def fetch_pools_def slice0_def Let_def)
  have before: "usedContacts_before processSingleCampaign (\<lambda>i. ?f) ?down [?c, ?c] (Suc 0) = {10, 20}"
    by (simp add: processSingleCampaign_def Let_def sel)
  note rejected = C3_no_overlap [where fetch = ?f and reject = "Some ''db down''" and config = ?c
      and used = "{}" and ?fetch2.0 = ?f and ?config2.0 = ?c and single = processSingleCampaign
      and r = "Inl ''db down''" and used' = "{10, 20}"
      and fetches = "\<lambda>i. ?f" and rejects = ?down and listConfigs = "[?c, ?c]"]
  note returned = C3_no_overlap [where fetch = ?f and reject = None and config = ?c
      and used = "{}" and ?fetch2.0 = ?f and ?config2.0 = ?c and single = processSingleCampaign
      and r = "Inr (allocate ?f ?c {})" and used' = "{10, 20}"
      and ?fetch1.0 = ?f and ?reject1.0 = None and ?config1.0 = ?c and ?a1.0 = "allocate ?f ?c {}"
      and ?used1.0 = "{10, 20}" and ?reject2.0 = None and ?a2.0 = "allocate ?f ?c {10, 20}"
      and ?used2.0 = "{10, 20, 30, 40}"
      and fetches = "\<lambda>i. ?f" and rejects = "\<lambda>i. None" and listConfigs = "[?c, ?c]"]
  have run_down: "processCampaignsWithDelay processSingleCampaign (\<lambda>i. ?f) ?down [?c, ?c]
                  = [Inl ''db down'', Inr (allocate ?f ?c {10, 20})]"
  proof (rule nth_equalityI)
    show "length (processCampaignsWithDelay processSingleCampaign (\<lambda>i. ?f) ?down [?c, ?c])
          = length [Inl ''db down'', Inr (allocate ?f ?c {10, 20})]"
      using rejected by simp
    fix i
    assume "i < length (processCampaignsWithDelay processSingleCampaign (\<lambda>i. ?f) ?down [?c, ?c])"
    then have "i = 0 \<or> i = 1" using rejected by auto
    then show "processCampaignsWithDelay processSingleCampaign (\<lambda>i. ?f) ?down [?c, ?c] ! i
               = [Inl ''db down'', Inr (allocate ?f ?c {10, 20})] ! i"
      using rejected before by (auto simp: processSingleCampaign_def Let_def sel)
  qed
  have run: "processCampaignsWithDelay processSingleCampaign (\<lambda>i. ?f) (\<lambda>i. None) [?c, ?c]
             = [Inr (allocate ?f ?c {}), Inr (allocate ?f ?c {10, 20})]"
    by (simp add: processCampaignsWithDelay_def processSingleCampaign_def Let_def sel)
  have "set (selectedContacts (allocate ?f ?c {})) \<inter> set (selectedContacts (allocate ?f ?c {10, 20})) = {}"
    using returned by (simp add: processSingleCampaign_def Let_def sel)
  moreover have "snd (processSingleCampaign ?f (Some ''db down'') ?c {}) = {10, 20}"
    using rejected by (simp add: sel)
  ultimately show ?thesis by (simp add: run run_down sel)
qed

section \<open>Campaign allocation: the fulfillment percentage\<close>

text \<open>The guard of lines 302 to 310: a target that is not positive gives 0.\<close>

lemma fulfillment_guard: "cnt \<le> 0 \<Longrightarrow> fulfillment n cnt = Number 0"
  by (simp add: fulfillment_def)

lemma fulfillment_examples:
  "fulfillment 100 100 = Number 100" "fulfillment 40 100 = Number 40"
  by code_simp+

text \<open>
  The examples of the specification, for the definition of lines 248 to 376: a target of
  100 with 60 unused identifiers in the primary list and 50 in the secondary list
  selects 100 and reports 100; with no secondary list and 40 unused identifiers it
  selects 40 and reports 40.
\<close>

lemma allocate_example_two_lists:
  "contactCount (allocate (\<lambda>listId maxCount. if listId = ''1'' then Inr [0..<60] else Inr [100..<150])
      \<lparr>primaryListId = ''1'', secondaryListId = Some ''2'', count = 100, sendContactListId = None\<rparr> {}) = 100 \<and>
   fulfillmentPercentage (allocate (\<lambda>listId maxCount. if listId = ''1'' then Inr [0..<60] else Inr [100..<150])
      \<lparr>primaryListId = ''1'', secondaryListId = Some ''2'', count = 100, sendContactListId = None\<rparr> {}) = Number 100"
  by (simp add: allocate_def fetch_pools_def slice0_def Let_def fulfillment_examples)

lemma allocate_example_one_list:
  "contactCount (allocate (\<lambda>listId maxCount. Inr [0..<40])
      \<lparr>primaryListId = ''1'', secondaryListId = None, count = 100, sendContactListId = None\<rparr> {}) = 40 \<and>
   fulfillmentPercentage (allocate (\<lambda>listId maxCount. Inr [0..<40])
      \<lparr>primaryListId = ''1'', secondaryListId = None, count = 100, sendContactListId = None\<rparr> {}) = Number 40"
  by (simp add: allocate_def fetch_pools_def slice0_def Let_def fulfillment_examples)

lemma fulfillment_23_of_40: "fulfillment 23 40 = Number 57"
  by code_simp

lemma fulfillment_copy2_0_of_0: "fulfillment_copy2 0 0 = NaN"
  by code_simp

text \<open>
  C9. The claim: the percentage is \<open>round (100 \<times> selected / target)\<close> for a positive
  target and 0 otherwise. The code divides first and multiplies then, both in binary
  floating point: for 23 selected of 40 the quotient is just below 0.575, the product
  just below 57.5, and the percentage 57, where \<open>100 \<times> 23 / 40 = 57.5\<close> rounds to 58. The
  second definition (lines 945 to 1016) has no test of the target either: a target of 0
  selects nothing and reports \<^verbatim>\<open>NaN\<close>, where the claim and the first definition give 0.
  The examples of the claim hold (\<open>allocate_example_two_lists\<close>,
  \<open>allocate_example_one_list\<close>).
\<close>

theorem C9_fulfillment_diverges:
  "fulfillmentPercentage (allocate (\<lambda>listId maxCount. Inr [0..<23])
      \<lparr>primaryListId = ''1'', secondaryListId = None, count = 40, sendContactListId = None\<rparr> {})
     = Number 57 \<and>
   \<lfloor>(100 * 23 / 40 :: rat) + 1 / 2\<rfloor> = 58 \<and>
   map_sum id fulfillmentPercentage (allocate_copy2 (\<lambda>listId maxCount. Inr ([] :: nat list))
      \<lparr>primaryListId = ''1'', secondaryListId = None, count = 0, sendContactListId = None\<rparr> {})
     = Inr NaN"
proof (intro conjI)
  show "fulfillmentPercentage (allocate (\<lambda>listId maxCount. Inr [0..<23])
      \<lparr>primaryListId = ''1'', secondaryListId = None, count = 40, sendContactListId = None\<rparr> {})
     = Number 57"
    by (simp add: allocate_def fetch_pools_def slice0_def Let_def fulfillment_23_of_40)
  show "\<lfloor>(100 * 23 / 40 :: rat) + 1 / 2\<rfloor> = 58"
    by code_simp
  show "map_sum id fulfillmentPercentage (allocate_copy2 (\<lambda>listId maxCount. Inr ([] :: nat list))
      \<lparr>primaryListId = ''1'', secondaryListId = None, count = 0, sendContactListId = None\<rparr> {})
     = Inr NaN"
    by (simp add: allocate_copy2_def fetch_pools_copy2_def slice0_def Let_def fulfillment_copy2_0_of_0)
qed

section \<open>The cloner: existence checks\<close>

lemma record_results_append:
  "record_results (xs @ ys) existsMap = record_results ys (record_results xs existsMap)"
  by (induction xs arbitrary: existsMap) auto

lemma check_batch_append:
  "check_batch search p (xs @ ys) = check_batch search p xs @ check_batch search (p + length xs) ys"
  by (induction xs arbitrary: p) simp_all

lemma check_batch_names: "map fst (check_batch search p xs) = xs"
  by (induction xs arbitrary: p) simp_all

lemma check_batch_entry:
  "(n, e) \<in> set (check_batch search p xs) \<Longrightarrow> \<exists>q. e = checkEmailExists (search q n)"
  by (induction xs arbitrary: p) auto

declare batch_loop.simps [simp del]

text \<open>
  Looking the names up five at a time records the same answers as looking them up one
  after the other.
\<close>

lemma batch_loop_sequential:
  "batch_loop search emailNames i existsMap =
   record_results (check_batch search i (drop i emailNames)) existsMap"
proof (induction "length emailNames - i" arbitrary: i existsMap rule: less_induct)
  case less
  show ?case
  proof (cases "i < length emailNames")
    case False
    then show ?thesis by (subst batch_loop.simps) simp
  next
    case True
    let ?rest = "drop i emailNames"
    have dec: "length emailNames - (i + 5) < length emailNames - i" using True by simp
    have split: "check_batch search i ?rest =
                 check_batch search i (take 5 ?rest) @ check_batch search (i + 5) (drop (i + 5) emailNames)"
    proof (cases "5 \<le> length ?rest")
      case True
      have "check_batch search i (take 5 ?rest @ drop 5 ?rest) =
            check_batch search i (take 5 ?rest) @ check_batch search (i + length (take 5 ?rest)) (drop 5 ?rest)"
        by (rule check_batch_append)
      moreover have "take 5 ?rest @ drop 5 ?rest = ?rest" by (rule append_take_drop_id)
      moreover have "drop 5 ?rest = drop (i + 5) emailNames" by (simp add: add.commute)
      moreover have "length (take 5 ?rest) = 5" using True by simp
      ultimately show ?thesis by simp
    next
      case False
      then show ?thesis by simp
    qed
    show ?thesis
      using True less.hyps [OF dec]
      by (subst batch_loop.simps) (simp add: Let_def slice_def split record_results_append)
  qed
qed

lemma record_results_all_false:
  assumes "\<forall>e. (name, e) \<in> set rs \<longrightarrow> \<not> e"
    and "existsMap name = Some False \<or> name \<in> fst ` set rs"
  shows "record_results rs existsMap name = Some False"
  using assms
proof (induction rs arbitrary: existsMap)
  case Nil
  then show ?case by simp
next
  case (Cons a rs)
  obtain n e where a: "a = (n, e)" by (cases a)
  have rest: "\<forall>e. (name, e) \<in> set rs \<longrightarrow> \<not> e" using Cons.prems(1) by auto
  have start: "(existsMap(n \<mapsto> e)) name = Some False \<or> name \<in> fst ` set rs"
  proof (cases "n = name")
    case True
    with Cons.prems(1) a have "\<not> e" by auto
    with True show ?thesis by simp
  next
    case False
    with a Cons.prems(2) show ?thesis by auto
  qed
  have "record_results rs (existsMap(n \<mapsto> e)) name = Some False"
    using rest start by (rule Cons.IH)
  then show ?case by (simp only: a record_results.simps)
qed

text \<open>
  A name whose every lookup fails is reported as not existing by the batch check.
\<close>

lemma batchCheckEmailsExist_failed:
  assumes "name \<in> set emailNames" and "\<forall>p. \<exists>m. search p name = SearchFailed m"
  shows "batchCheckEmailsExist search emailNames name = Some False"
proof -
  have ne: "emailNames \<noteq> []" using assms(1) by auto
  have no: "\<forall>e. (name, e) \<in> set (check_batch search 0 emailNames) \<longrightarrow> \<not> e"
  proof (intro allI impI)
    fix e
    assume "(name, e) \<in> set (check_batch search 0 emailNames)"
    then obtain q where e: "e = checkEmailExists (search q name)" using check_batch_entry by blast
    obtain m where "search q name = SearchFailed m" using assms(2) by blast
    with e show "\<not> e" by simp
  qed
  have "fst ` set (check_batch search 0 emailNames) = set emailNames"
    using check_batch_names [of search 0 emailNames] by (metis set_map)
  with assms(1) have "name \<in> fst ` set (check_batch search 0 emailNames)" by simp
  with no show ?thesis
    using ne by (simp add: batchCheckEmailsExist_def batch_loop_sequential record_results_all_false)
qed







section \<open>The cloner: the filter of the batch version\<close>



lemma filter_duplicates_complete:
  "n \<in> set names \<Longrightarrow> n \<notin> cache \<Longrightarrow> n \<notin> db \<Longrightarrow> \<not> flagged hub n \<Longrightarrow>
   n \<in> set (fst (filter_duplicates names db hub cache k))"
proof (induction names arbitrary: cache k)
  case Nil
  then show ?case by simp
next
  case (Cons a names)
  show ?case
  proof (cases "n = a")
    case True
    with Cons.prems show ?thesis by (simp add: split_beta)
  next
    case False
    with Cons.prems have "n \<in> set names" "n \<notin> insert a cache" by simp_all
    with Cons.IH [of cache "k + 1"] Cons.IH [of "insert a cache" k] Cons.prems(3,4) Cons.prems(2)
    show ?thesis by (simp add: split_beta)
  qed
qed











section \<open>The cloner: the checks of the one-by-one version\<close>







section \<open>The cloner: the checks of the batch version\<close>




section \<open>The cloner: one source email, one day\<close>











section \<open>The cloner: a search that fails\<close>

text \<open>
  C10. When the search for a name fails with an error, the existence check answers
  that the name does not exist instead of passing the error on: \<^verbatim>\<open>checkEmailExists\<close>
  returns \<^verbatim>\<open>false\<close>, and \<^verbatim>\<open>batchCheckEmailsExist\<close> records \<^verbatim>\<open>false\<close> for a name all of whose
  lookups fail. So the remote layer lets the name through: the filter of the batch
  version keeps it when the cache and the audit store do not hold it, and
  \<^verbatim>\<open>cloneAndScheduleEmail\<close> of cloner.js goes on to ask for the clone, whether or not the
  remote system already has an email of that name.
\<close>

theorem C10_failed_search_is_absent:
  "checkEmailExists (SearchFailed message) = False \<and>
   (name \<in> set emailNames \<and> (\<forall>p. \<exists>m. search p name = SearchFailed m) \<longrightarrow>
      batchCheckEmailsExist search emailNames name = Some False \<and>
      \<not> flagged (batchCheckEmailsExist search emailNames) name \<and>
      (name \<notin> cache \<and> name \<notin> db \<longrightarrow>
         name \<in> set (fst (filter_duplicates emailNames db
                            (batchCheckEmailsExist search emailNames) cache 0)))) \<and>
   (getEmail r p originalEmailId = Some originalEmailName \<and>
    match_date originalEmailName = Some (before, dateMatch, after) \<and>
    n = before @ updatedDate dateMatch dayOffset hour minute @ after \<and>
    n \<notin> cache2 \<and> findOne r p n \<noteq> Some True \<and> searchName r p n = SearchFailed message2 \<longrightarrow>
      snd (snd (cloneAndScheduleEmail r p cache2 originalEmailId dayOffset hour minute)) = Some n)"
proof (intro conjI impI)
  show "checkEmailExists (SearchFailed message) = False" by simp
next
  assume a: "name \<in> set emailNames \<and> (\<forall>p. \<exists>m. search p name = SearchFailed m)"
  from batchCheckEmailsExist_failed [of name emailNames search] a
  show absent: "batchCheckEmailsExist search emailNames name = Some False" by simp
  then show unflagged: "\<not> flagged (batchCheckEmailsExist search emailNames) name"
    by (simp add: flagged_def)
  assume "name \<notin> cache \<and> name \<notin> db"
  with a unflagged
  show "name \<in> set (fst (filter_duplicates emailNames db (batchCheckEmailsExist search emailNames) cache 0))"
    by (simp add: filter_duplicates_complete)
next
  assume "getEmail r p originalEmailId = Some originalEmailName \<and>
    match_date originalEmailName = Some (before, dateMatch, after) \<and>
    n = before @ updatedDate dateMatch dayOffset hour minute @ after \<and>
    n \<notin> cache2 \<and> findOne r p n \<noteq> Some True \<and> searchName r p n = SearchFailed message2"
  then show "snd (snd (cloneAndScheduleEmail r p cache2 originalEmailId dayOffset hour minute)) = Some n"
    by (auto simp: cloneAndScheduleEmail_def Let_def split: option.splits)
qed

theorem C10_failed_search_is_absent_witness:
  "batchCheckEmailsExist (\<lambda>p name. SearchFailed ''503'') [''Acme - 06 Mar 2025''] ''Acme - 06 Mar 2025''
     = Some False \<and>
   ''Acme - 06 Mar 2025'' \<in> set (fst (filter_duplicates [''Acme - 06 Mar 2025''] {}
       (batchCheckEmailsExist (\<lambda>p name. SearchFailed ''503'') [''Acme - 06 Mar 2025'']) {} 0)) \<and>
   snd (snd (cloneAndScheduleEmail
     \<lparr>getEmail = \<lambda>p emailId. Some ''Acme - 05 Mar 2025'', findOne = \<lambda>p name. Some False,
      searchName = \<lambda>p name. SearchFailed ''503'',
      cloneAndUpdate = \<lambda>p emailId name. Some ''c1''\<rparr> 0 {} ''e1'' 1 11 0))
     = Some ''Acme - 06 Mar 2025''"
proof -
  let ?r = "\<lparr>getEmail = \<lambda>p emailId. Some ''Acme - 05 Mar 2025'', findOne = \<lambda>p name. Some False,
      searchName = \<lambda>p name. SearchFailed ''503'',
      cloneAndUpdate = \<lambda>p emailId name. Some ''c1''\<rparr>"
  have m: "match_date ''Acme - 05 Mar 2025'' = Some (''Acme - '', ''05 Mar 2025'', [])"
    by code_simp
  have u: "''Acme - '' @ updatedDate ''05 Mar 2025'' 1 11 0 @ [] = ''Acme - 06 Mar 2025''"
    by code_simp
  from C10_failed_search_is_absent [of "''503''" "''Acme - 06 Mar 2025''" "[''Acme - 06 Mar 2025'']"
      "\<lambda>p name. SearchFailed ''503''" "{}" "{}" ?r 0 "''e1''" "''Acme - 05 Mar 2025''"
      "''Acme - ''" "''05 Mar 2025''" "[]" "''Acme - 06 Mar 2025''" 1 11 0 "{}" "''503''"]
    m u
  show ?thesis by simp
qed

section \<open>The cloner: time slots\<close>

text \<open>The slots of cloner.js do not depend on what the remote side answers.\<close>

lemma day_cloner_js_slots:
  "run_slots (day_cloner_js r strategy day emailIds c run)
   = run_slots run @ slots_cloner_js strategy c (length emailIds)"
proof (induction emailIds arbitrary: c run)
  case Nil
  show ?case by simp
next
  case (Cons emailId emailIds)
  obtain hour minute c' where slot: "next_slot_cloner_js strategy c = ((hour, minute), c')"
    by (metis surj_pair)
  show ?case
    by (simp add: slot Let_def split_beta Cons.IH)
qed

lemma days_cloner_js_slots:
  "run_slots (days_cloner_js r strategy emailIds days run)
   = run_slots run @ concat (map (\<lambda>day. slots_cloner_js strategy (0, 0) (length emailIds)) days)"
  by (induction days arbitrary: run) (simp_all add: day_cloner_js_slots)

lemma EmailCloner_cloner_js_one_day:
  "run_slots (EmailCloner_cloner_js r cache emailIds 1 strategy)
   = slots_cloner_js strategy (0, 0) (length emailIds)"
proof -
  have "[1..<1 + 1] = [1::nat]" by simp
  then show ?thesis
    unfolding EmailCloner_cloner_js_def by (simp only: days_cloner_js_slots) simp
qed

text \<open>
  The default branch of cloner.js: the counters after \<open>i\<close> emails are \<open>5 i\<close> and \<open>i\<close> up
  to the twelfth email and stay at 60 and 12 from then on, since the afternoon branch
  changes neither; so every email from the thirteenth on gets 16:00.
\<close>

lemma slots_cloner_js_smart:
  assumes "strategy \<noteq> ''morning''" "strategy \<noteq> ''afternoon''" "strategy \<noteq> ''custom''"
  shows "slots_cloner_js strategy (5 * int (min i 12), min i 12) n
         = map (\<lambda>k. if k < 12 then (11, 5 * int k) else (16, 0)) [i..<i + n]"
proof (induction n arbitrary: i)
  case 0
  show ?case by simp
next
  case (Suc n)
  show ?case
  proof (cases "i < 12")
    case True
    then have m: "min i 12 = i" "min (Suc i) 12 = Suc i" by simp_all
    have "slots_cloner_js strategy (5 * int i, i) (Suc n)
          = (11, 5 * int i) # slots_cloner_js strategy (5 * int (Suc i), Suc i) n"
      using assms True by (simp add: next_slot_cloner_js_def MAX_MORNING_SLOTS_def add.commute)
    with Suc [of "Suc i"] True show ?thesis
      by (simp add: m upt_rec [of i])
  next
    case False
    then have m: "min i 12 = 12" "min (Suc i) 12 = 12" by simp_all
    have "slots_cloner_js strategy (60, 12) (Suc n) = (16, 0) # slots_cloner_js strategy (60, 12) n"
      using assms by (simp add: next_slot_cloner_js_def MAX_MORNING_SLOTS_def)
    with Suc [of "Suc i"] False show ?thesis
      by (simp add: m upt_rec [of i])
  qed
qed

text \<open>
  The batch version: the slots given in one day are those of the switch, one for every
  email whose name is known.
\<close>

lemma plan_day_slots:
  "slotsGiven (plan_day strategy opts emailInfoMap day emailIds c pl)
   = slotsGiven pl @ slots_from strategy opts c
       (length (filter (\<lambda>emailId. usable (emailInfoMap emailId) \<noteq> None) emailIds))"
proof (induction emailIds arbitrary: c pl)
  case Nil
  show ?case by simp
next
  case (Cons emailId emailIds)
  show ?case
  proof (cases "usable (emailInfoMap emailId)")
    case None
    then show ?thesis by (simp add: Cons.IH)
  next
    case (Some originalEmailName)
    obtain hour minute c' where slot: "next_slot strategy opts c = ((hour, minute), c')"
      by (metis surj_pair)
    show ?thesis
      by (cases "match_date originalEmailName")
         (auto simp: Some slot Let_def Cons.IH)
  qed
qed

text \<open>
  Under the smart strategy of the batch version the email at index \<open>i\<close> of the day gets
  the slot of the specification. The counters after \<open>i\<close> emails: the index is \<open>i\<close>, the
  morning counter \<open>5 i\<close> up to the twelfth email, the afternoon counter \<open>5 (i - 12)\<close>.
\<close>

lemma slots_from_smart:
  assumes "strategy \<noteq> ''morning''" "strategy \<noteq> ''afternoon''" "strategy \<noteq> ''custom''"
    and "emailIndex c = i" and "morningMinuteCounter c = 5 * int (min i 12)"
    and "afternoonMinuteCounter c = 5 * int (i - 12)"
  shows "slots_from strategy opts c n = map spec_smart_slot [i..<i + n]"
  using assms(4-)
proof (induction n arbitrary: i c)
  case 0
  show ?case by simp
next
  case (Suc n)
  show ?case
  proof (cases "i < 12")
    case True
    let ?c = "c\<lparr>morningMinuteCounter := morningMinuteCounter c + 5, emailIndex := emailIndex c + 1\<rparr>"
    have slot: "next_slot strategy opts c = (spec_smart_slot i, ?c)"
      using assms(1-3) Suc.prems True
      by (simp add: next_slot_def MAX_MORNING_SLOTS_def roll_def spec_smart_slot_def)
    have "slots_from strategy opts ?c n = map spec_smart_slot [Suc i..<Suc i + n]"
      using Suc.prems True by (intro Suc.IH) simp_all
    then show ?thesis by (simp add: slot upt_rec [of i])
  next
    case False
    let ?c = "c\<lparr>afternoonMinuteCounter := afternoonMinuteCounter c + 5, emailIndex := emailIndex c + 1\<rparr>"
    have eq: "5 * int (i - 12) = 5 * (int i - 12)" using False by (simp add: of_nat_diff)
    have "roll (16, 5 * (int i - 12)) = spec_smart_slot i"
    proof (cases "60 \<le> 5 * (int i - 12)")
      case True
      with False show ?thesis by (simp add: roll_def spec_smart_slot_def)
    next
      case small: False
      define m where "m = 5 * (int i - 12)"
      have "0 \<le> m" "m < 60" using False small by (simp_all add: m_def)
      then have "m div 60 = 0" "m mod 60 = m"
        by (simp_all add: div_pos_pos_trivial mod_pos_pos_trivial)
      with small False show ?thesis
        unfolding roll_def spec_smart_slot_def m_def [symmetric] by simp
    qed
    then have "roll (16, 5 * int (i - 12)) = spec_smart_slot i" by (simp only: eq)
    then have slot: "next_slot strategy opts c = (spec_smart_slot i, ?c)"
      using assms(1-3) Suc.prems False
      by (simp add: next_slot_def MAX_MORNING_SLOTS_def)
    have "slots_from strategy opts ?c n = map spec_smart_slot [Suc i..<Suc i + n]"
      using Suc.prems False by (intro Suc.IH) (simp_all add: Suc_diff_le)
    then show ?thesis by (simp add: slot upt_rec [of i])
  qed
qed

lemma plan_day_smart:
  assumes "strategy \<noteq> ''morning''" "strategy \<noteq> ''afternoon''" "strategy \<noteq> ''custom''"
  shows "slotsGiven (plan_day strategy opts emailInfoMap day emailIds start_of_day pl)
         = slotsGiven pl @ map spec_smart_slot
             [0..<length (filter (\<lambda>emailId. usable (emailInfoMap emailId) \<noteq> None) emailIds)]"
  using slots_from_smart [OF assms, of start_of_day 0 opts]
  by (simp add: plan_day_slots start_of_day_def)


text \<open>
  When every source email has a name, every email of every day gets a slot, and each day
  starts again from the first slot.
\<close>

lemma fetch_info_usable:
  assumes "\<And>p emailId. usable (get p emailId) \<noteq> None"
    and "\<forall>emailId\<in>S. usable (emailInfoMap emailId) \<noteq> None"
  shows "\<forall>emailId\<in>S \<union> set emailIds.
           usable (fst (fetch_info get emailIds p emailInfoMap errs) emailId) \<noteq> None"
  using assms(2)
proof (induction emailIds arbitrary: p emailInfoMap errs S)
  case Nil
  then show ?case by simp
next
  case (Cons a emailIds)
  from assms(1) [of p a] obtain name where name: "get p a = Some name" "usable (Some name) \<noteq> None"
    by (cases "get p a") (auto simp: usable_def)
  have "\<forall>emailId\<in>insert a S. usable ((emailInfoMap(a \<mapsto> name)) emailId) \<noteq> None"
    using Cons.prems name(2) by simp
  then have ih: "\<forall>emailId\<in>insert a S \<union> set emailIds.
      usable (fst (fetch_info get emailIds (p + 1) (emailInfoMap(a \<mapsto> name)) errs) emailId) \<noteq> None"
    by (rule Cons.IH)
  have step: "fetch_info get (a # emailIds) p emailInfoMap errs
              = fetch_info get emailIds (p + 1) (emailInfoMap(a \<mapsto> name)) errs"
    by (simp only: fetch_info.simps name(1) option.case)
  show ?case unfolding step using ih by auto
qed

lemma plan_days_smart:
  assumes "strategy \<noteq> ''morning''" "strategy \<noteq> ''afternoon''" "strategy \<noteq> ''custom''"
    and "\<forall>emailId\<in>set emailIds. usable (emailInfoMap emailId) \<noteq> None"
  shows "slotsGiven (plan_days strategy opts emailInfoMap emailIds days pl)
         = slotsGiven pl @ concat (map (\<lambda>day. map spec_smart_slot [0..<length emailIds]) days)"
proof (induction days arbitrary: pl)
  case Nil
  show ?case by simp
next
  case (Cons day days)
  have "filter (\<lambda>emailId. usable (emailInfoMap emailId) \<noteq> None) emailIds = emailIds"
    using assms(4) by (simp add: filter_id_conv)
  then show ?case
    by (simp add: Cons.IH plan_day_smart [OF assms(1-3)])
qed

lemma planned_smart:
  assumes "strategy \<noteq> ''morning''" "strategy \<noteq> ''afternoon''" "strategy \<noteq> ''custom''"
    and "\<And>p emailId. usable (getName r p emailId) \<noteq> None"
  shows "slotsGiven (planned r emailIds cloningCount strategy opts)
         = concat (map (\<lambda>day. map spec_smart_slot [0..<length emailIds]) [1..<cloningCount + 1])"
proof -
  obtain emailInfoMap errs where f: "fetch_info (getName r) emailIds 0 Map.empty 0 = (emailInfoMap, errs)"
    by (metis surj_pair)
  from fetch_info_usable [of "getName r" "{}" Map.empty emailIds 0 0] assms(4) f
  have "\<forall>emailId\<in>set emailIds. usable (emailInfoMap emailId) \<noteq> None" by simp
  from plan_days_smart [OF assms(1-3) this] f show ?thesis
    by (simp add: planned_def)
qed

lemma days_cloner_js_smart:
  assumes "strategy \<noteq> ''morning''" "strategy \<noteq> ''afternoon''" "strategy \<noteq> ''custom''"
  shows "run_slots (EmailCloner_cloner_js r cache emailIds cloningCount strategy)
         = concat (map (\<lambda>day. map (\<lambda>k. if k < 12 then (11, 5 * int k) else (16, 0)) [0..<length emailIds])
                     [1..<cloningCount + 1])"
  using slots_cloner_js_smart [OF assms, of 0 "length emailIds"]
  by (simp add: EmailCloner_cloner_js_def days_cloner_js_slots)

text \<open>
  C7. The claim: under the smart strategy the email at index \<open>i\<close> of a day is placed at
  11:00 plus \<open>5 i\<close> minutes for \<open>i < 12\<close>, and otherwise in the afternoon hour at the same
  cadence counted from its start, minutes from 60 on rolled into the hour. The batch
  version does this (\<open>planned_smart\<close>). In the default branch of cloner.js (lines 310 to
  320) the afternoon branch computes the minute from a counter it never advances, so
  every email from the thirteenth on is placed at 16:00: with fourteen emails in a day,
  the one at index 13 gets 16:00 where the claim and the batch version give 16:05.
\<close>

theorem C7_afternoon_slots_collide:
  "run_slots (EmailCloner_cloner_js r cache (replicate 14 ''e1'') 1 ''smart'')
     = [(11, 0), (11, 5), (11, 10), (11, 15), (11, 20), (11, 25), (11, 30), (11, 35), (11, 40),
        (11, 45), (11, 50), (11, 55), (16, 0), (16, 0)] \<and>
   run_slots (EmailCloner_cloner_js r cache (replicate 14 ''e1'') 1 ''smart'') ! 13 = (16, 0) \<and>
   spec_smart_slot 13 = (16, 5) \<and>
   slotsGiven (planned
      \<lparr>getName = \<lambda>p emailId. Some ''Acme - 05 Mar 2025'', storedNames = stored,
       searchByName = search, cloneEmail = clone\<rparr>
      (replicate 14 ''e1'') 1 ''smart'' opts)
     = [(11, 0), (11, 5), (11, 10), (11, 15), (11, 20), (11, 25), (11, 30), (11, 35), (11, 40),
        (11, 45), (11, 50), (11, 55), (16, 0), (16, 5)]"
proof -
  have upt14: "[0..<14] = [0, 1, 2, 3, 4, 5, 6, 7, 8, 9, 10, 11, 12, 13 :: nat]"
    by (simp add: upt_rec)
  have js: "run_slots (EmailCloner_cloner_js r cache (replicate 14 ''e1'') 1 ''smart'')
     = [(11, 0), (11, 5), (11, 10), (11, 15), (11, 20), (11, 25), (11, 30), (11, 35), (11, 40),
        (11, 45), (11, 50), (11, 55), (16, 0), (16, 0)]"
    by (simp add: days_cloner_js_smart upt14)
  have batch: "slotsGiven (planned
      \<lparr>getName = \<lambda>p emailId. Some ''Acme - 05 Mar 2025'', storedNames = stored,
       searchByName = search, cloneEmail = clone\<rparr>
      (replicate 14 ''e1'') 1 ''smart'' opts)
     = [(11, 0), (11, 5), (11, 10), (11, 15), (11, 20), (11, 25), (11, 30), (11, 35), (11, 40),
        (11, 45), (11, 50), (11, 55), (16, 0), (16, 5)]"
    by (subst planned_smart) (simp_all add: usable_def upt14 spec_smart_slot_def)
  show ?thesis
    unfolding js batch by (simp add: spec_smart_slot_def)
qed

section \<open>The cloner: the name of a clone\<close>

text \<open>
  The example of the specification: three days after 05 Mar 2025 is 08 Mar 2025, and the
  date is replaced where it stands.
\<close>

lemma newEmailName_acme: "newEmailName ''Acme - 05 Mar 2025'' 3 11 0 = Some ''Acme - 08 Mar 2025''"
  by code_simp

text \<open>The carry into the next month and the next year, with the same shape of date.\<close>

lemma newEmailName_carry:
  "newEmailName ''Promo 30 Dec 2024 (EU)'' 3 16 5 = Some ''Promo 02 Jan 2025 (EU)''"
  by code_simp

lemma match_date_weekly: "match_date ''Weekly digest'' = None"
  by code_simp

text \<open>
  C8. The claim: the name of the clone is the source name with its date replaced by the
  date the offset leads to, in the same format, and a source name without a date is
  skipped and counted as an error, not as a duplicate. The names are derived as claimed
  (\<open>newEmailName_acme\<close>, \<open>newEmailName_carry\<close>), and the batch version counts a source name
  without a date as an error (lines 446 to 477 of the unnamed file). In cloner.js (lines
  102 to 126) \<^verbatim>\<open>cloneAndScheduleEmail\<close> answers such a name with \<^verbatim>\<open>skipped: true\<close>, which
  its caller counts under \<^verbatim>\<open>duplicatesSkipped\<close>: one source email named
  \<^verbatim>\<open>Weekly digest\<close>, cloned for one day, ends with one duplicate and no error.
\<close>

theorem C8_no_date_counted_as_duplicate:
  "newEmailName ''Weekly digest'' 1 11 0 = None \<and>
   cloneAndScheduleEmail
     \<lparr>getEmail = \<lambda>p emailId. Some ''Weekly digest'', findOne = inDB, searchName = search,
      cloneAndUpdate = clone\<rparr> 0 {} ''e1'' 1 11 0
     = (CloneSkipped ''No date in original email name'', {}, None) \<and>
   run_stats (EmailCloner_cloner_js
     \<lparr>getEmail = \<lambda>p emailId. Some ''Weekly digest'', findOne = inDB, searchName = search,
      cloneAndUpdate = clone\<rparr> {} [''e1''] 1 ''smart'')
     = \<lparr>totalAttempted = 1, successfullyCloned = 0, duplicatesSkipped = 1, errors = 0,
        clonedEmails = []\<rparr> \<and>
   fst (EmailCloner
     \<lparr>getName = \<lambda>p emailId. Some ''Weekly digest'', storedNames = Inr stored,
      searchByName = search, cloneEmail = clone\<rparr> {} [''e1''] 1 ''smart'' opts)
     = Inr (\<lparr>totalAttempted = 1, successfullyCloned = 0, duplicatesSkipped = 0, errors = 1,
             clonedEmails = []\<rparr>, []) \<and>
   newEmailName ''Acme - 05 Mar 2025'' 3 11 0 = Some ''Acme - 08 Mar 2025''"
proof (intro conjI)
  show "newEmailName ''Weekly digest'' 1 11 0 = None"
    by (simp del: match_date.simps add: newEmailName_def match_date_weekly)
  show call: "cloneAndScheduleEmail
     \<lparr>getEmail = \<lambda>p emailId. Some ''Weekly digest'', findOne = inDB, searchName = search,
      cloneAndUpdate = clone\<rparr> 0 {} ''e1'' 1 11 0
     = (CloneSkipped ''No date in original email name'', {}, None)"
    by (simp del: match_date.simps add: cloneAndScheduleEmail_def match_date_weekly)
  show "run_stats (EmailCloner_cloner_js
     \<lparr>getEmail = \<lambda>p emailId. Some ''Weekly digest'', findOne = inDB, searchName = search,
      cloneAndUpdate = clone\<rparr> {} [''e1''] 1 ''smart'')
     = \<lparr>totalAttempted = 1, successfullyCloned = 0, duplicatesSkipped = 1, errors = 0,
        clonedEmails = []\<rparr>"
    using call
    by (simp add: EmailCloner_cloner_js_def next_slot_cloner_js_def MAX_MORNING_SLOTS_def
        count_result_def Let_def)
  show "fst (EmailCloner
     \<lparr>getName = \<lambda>p emailId. Some ''Weekly digest'', storedNames = Inr stored,
      searchByName = search, cloneEmail = clone\<rparr> {} [''e1''] 1 ''smart'' opts)
     = Inr (\<lparr>totalAttempted = 1, successfullyCloned = 0, duplicatesSkipped = 0, errors = 1,
             clonedEmails = []\<rparr>, [])"
    by (simp del: match_date.simps
        add: EmailCloner_def planned_def usable_def next_slot_def start_of_day_def
          MAX_MORNING_SLOTS_def roll_def match_date_weekly batchCheckEmailsExist_def Let_def)
  show "newEmailName ''Acme - 05 Mar 2025'' 3 11 0 = Some ''Acme - 08 Mar 2025''"
    by (rule newEmailName_acme)
qed

end
